theory Spec2Isabelle
  imports Complex_Main "HOL-Library.Monad_Syntax"
begin

section \<open>NumPy arrays\<close>

text \<open>
  Every array of the notebook is two-dimensional (or a one-dimensional array of one
  element, which broadcasts like a single row). An array is the list of its rows; all
  rows of an array have the same length, and every array of the notebook has at least
  one row. The entries are real numbers: rounding of binary64 arithmetic is not part of
  this model, except for the logistic function, which has a binary64 model of its own
  below. An operation that NumPy rejects with a \<^verbatim>\<open>ValueError\<close> (shapes
  that do not fit), and an index out of range, give \<open>None\<close>.
\<close>

type_synonym 'a ndarray = "'a list list"

definition nrows :: "'a ndarray \<Rightarrow> nat" where
  "nrows a = length a"

definition ncols :: "'a ndarray \<Rightarrow> nat" where
  "ncols a = (case a of [] \<Rightarrow> 0 | r # _ \<Rightarrow> length r)"

definition has_shape :: "nat \<Rightarrow> nat \<Rightarrow> 'a ndarray \<Rightarrow> bool" where
  "has_shape r c a = (length a = r \<and> list_all (\<lambda>row. length row = c) a)"

text \<open>The array of shape \<open>(r, c)\<close> whose entry at \<open>(i, j)\<close> is \<open>f i j\<close>.\<close>

definition tab :: "nat \<Rightarrow> nat \<Rightarrow> (nat \<Rightarrow> nat \<Rightarrow> 'a) \<Rightarrow> 'a ndarray" where
  "tab r c f = map (\<lambda>i. map (\<lambda>j. f i j) [0..<c]) [0..<r]"

definition col :: "'a ndarray \<Rightarrow> nat \<Rightarrow> 'a list" where
  "col b j = map (\<lambda>row. row ! j) b"

definition dot :: "real list \<Rightarrow> real list \<Rightarrow> real" where
  "dot u v = sum_list (map2 (*) u v)"

text \<open>\<^verbatim>\<open>a @ b\<close>: the inner dimensions must agree.\<close>

definition matmul :: "real ndarray \<Rightarrow> real ndarray \<Rightarrow> real ndarray option" where
  "matmul a b =
     (if ncols a = nrows b
      then Some (map (\<lambda>row. map (\<lambda>j. dot row (col b j)) [0..<ncols b]) a)
      else None)"

text \<open>\<^verbatim>\<open>a.T\<close>\<close>

definition T :: "'a ndarray \<Rightarrow> 'a ndarray" where
  "T a = map (\<lambda>j. col a j) [0..<ncols a]"

text \<open>
  Broadcasting of one dimension: equal extents, or one of them is 1 and is stretched.
\<close>

definition bdim :: "nat \<Rightarrow> nat \<Rightarrow> nat option" where
  "bdim m n =
     (if m = n then Some m else if m = 1 then Some n else if n = 1 then Some m else None)"

definition broadcast_to :: "nat \<Rightarrow> nat \<Rightarrow> 'a ndarray \<Rightarrow> 'a ndarray" where
  "broadcast_to r c a =
     map (\<lambda>i. map (\<lambda>j. a ! (if nrows a = 1 then 0 else i) ! (if ncols a = 1 then 0 else j))
                 [0..<c]) [0..<r]"

text \<open>A binary operator applied element by element (\<^verbatim>\<open>+\<close>, \<^verbatim>\<open>-\<close>, \<^verbatim>\<open>*\<close>).\<close>

definition elementwise :: "('a \<Rightarrow> 'b \<Rightarrow> 'c) \<Rightarrow> 'a ndarray \<Rightarrow> 'b ndarray \<Rightarrow> 'c ndarray option" where
  "elementwise f a b =
     (case bdim (nrows a) (nrows b) of
        None \<Rightarrow> None
      | Some r \<Rightarrow>
          (case bdim (ncols a) (ncols b) of
             None \<Rightarrow> None
           | Some c \<Rightarrow> Some (map2 (map2 f) (broadcast_to r c a) (broadcast_to r c b))))"

definition add :: "real ndarray \<Rightarrow> real ndarray \<Rightarrow> real ndarray option" where
  "add = elementwise (+)"

definition sub :: "real ndarray \<Rightarrow> real ndarray \<Rightarrow> real ndarray option" where
  "sub = elementwise (-)"

definition mul :: "real ndarray \<Rightarrow> real ndarray \<Rightarrow> real ndarray option" where
  "mul = elementwise (*)"

text \<open>A Boolean array times a real array: \<^verbatim>\<open>True\<close> counts as 1, \<^verbatim>\<open>False\<close> as 0.\<close>

definition mask_mul :: "bool ndarray \<Rightarrow> real ndarray \<Rightarrow> real ndarray option" where
  "mask_mul = elementwise (\<lambda>m v. of_bool m * v)"

text \<open>A function applied to every element, and a Python scalar times an array.\<close>

definition ufunc :: "('a \<Rightarrow> 'b) \<Rightarrow> 'a ndarray \<Rightarrow> 'b ndarray" where
  "ufunc f a = map (map f) a"

definition scalar_mul :: "real \<Rightarrow> real ndarray \<Rightarrow> real ndarray" where
  "scalar_mul k a = ufunc (\<lambda>v. k * v) a"

text \<open>
  \<^verbatim>\<open>a -= d\<close> writes into \<open>a\<close>: the broadcast result must have the shape of \<open>a\<close>.
\<close>

definition isub :: "real ndarray \<Rightarrow> real ndarray \<Rightarrow> real ndarray option" where
  "isub a d =
     (case sub a d of
        None \<Rightarrow> None
      | Some r \<Rightarrow> if nrows r = nrows a \<and> ncols r = ncols a then Some r else None)"

section \<open>Activation functions\<close>

text \<open>
  \<^verbatim>\<open>relu(x) = np.maximum(x, 0)\<close> and \<^verbatim>\<open>logistic(x) = 1 / (1 + np.exp(-x))\<close>,
  \<^verbatim>\<open>d_relu(x) = x > 0\<close> and
  \<^verbatim>\<open>d_logistic(x) = np.exp(-x) / (1 + np.exp(-x)) ** 2\<close>; on an array they act on
  every element (\<open>ufunc\<close>).
\<close>

definition relu :: "real \<Rightarrow> real" where
  "relu x = max x 0"

definition logistic :: "real \<Rightarrow> real" where
  "logistic x = 1 / (1 + exp (- x))"

definition d_relu :: "real \<Rightarrow> bool" where
  "d_relu x = (x > 0)"

definition d_logistic :: "real \<Rightarrow> real" where
  "d_logistic x = exp (- x) / (1 + exp (- x)) ^ 2"

section \<open>The parameters and the forward pass\<close>

text \<open>The six module-level arrays of the notebook.\<close>

record params =
  w_first_hidden :: "real ndarray"
  b_first_hidden :: "real ndarray"
  w_second_hidden :: "real ndarray"
  b_second_hidden :: "real ndarray"
  w_output :: "real ndarray"
  b_output :: "real ndarray"

type_synonym cache =
  "real ndarray \<times> real ndarray \<times> real ndarray \<times> real ndarray \<times> real ndarray \<times> real ndarray"

text \<open>
  \<^verbatim>\<open>forward_propagation(input_vector)\<close> reads the module-level arrays; the model
  takes them as the state and returns the state with the result.
\<close>

definition forward_propagation :: "real ndarray \<Rightarrow> params \<Rightarrow> (cache \<times> params) option" where
  "forward_propagation input_vector s = do {
     p1 \<leftarrow> matmul (w_first_hidden s) input_vector;
     first_algebra \<leftarrow> add p1 (b_first_hidden s);
     let first_function = ufunc relu first_algebra;
     p2 \<leftarrow> matmul (w_second_hidden s) first_function;
     second_algebra \<leftarrow> add p2 (b_second_hidden s);
     let second_function = ufunc relu second_algebra;
     p3 \<leftarrow> matmul (w_output s) second_function;
     output_algebra \<leftarrow> add p3 (b_output s);
     let result = ufunc logistic output_algebra;
     Some ((first_algebra, first_function, second_algebra, second_function,
            output_algebra, result), s)
   }"

section \<open>The backward pass\<close>

type_synonym grads =
  "real ndarray \<times> real ndarray \<times> real ndarray \<times> real ndarray \<times> real ndarray \<times> real ndarray"

text \<open>
  \<^verbatim>\<open>backward_propagation\<close> takes the six values of the forward pass, the input
  and the label, and reads the module-level \<^verbatim>\<open>w_output\<close> and
  \<^verbatim>\<open>w_second_hidden\<close>. It returns the gradients in the order output layer,
  second hidden layer, first hidden layer.
\<close>

definition backward_propagation ::
  "real ndarray \<Rightarrow> real ndarray \<Rightarrow> real ndarray \<Rightarrow> real ndarray \<Rightarrow> real ndarray \<Rightarrow> real ndarray \<Rightarrow>
   real ndarray \<Rightarrow> real ndarray \<Rightarrow> params \<Rightarrow> (grads \<times> params) option" where
  "backward_propagation first_algebra first_function second_algebra second_function
       output_algebra result input_vector real_value s = do {
     diff \<leftarrow> sub result real_value;
     let d_loss__d_result = scalar_mul 2 diff;
     let d_result__d_output_algebra = ufunc d_logistic output_algebra;
     d_loss__d_output_algebra \<leftarrow> mul d_loss__d_result d_result__d_output_algebra;
     d_loss__d_w_output \<leftarrow> matmul d_loss__d_output_algebra (T second_function);
     let d_loss__d_b_output = d_loss__d_output_algebra;
     d_loss__d_second_function \<leftarrow> matmul (T (w_output s)) d_loss__d_output_algebra;
     let d_second_function__d_second_algebra = ufunc d_relu second_algebra;
     d_loss__d_second_algebra \<leftarrow>
       mask_mul d_second_function__d_second_algebra d_loss__d_second_function;
     d_loss__d_w_second_hidden \<leftarrow> matmul d_loss__d_second_algebra (T first_function);
     let d_loss__d_b_second_hidden = d_loss__d_second_algebra;
     d_loss__d_first_function \<leftarrow> matmul (T (w_second_hidden s)) d_loss__d_second_algebra;
     let d_first_function__d_first_algebra = ufunc d_relu first_algebra;
     d_loss__d_first_algebra \<leftarrow>
       mask_mul d_first_function__d_first_algebra d_loss__d_first_function;
     d_loss__d_w_first_hidden \<leftarrow> matmul d_loss__d_first_algebra (T input_vector);
     let d_loss__d_b_first_hidden = d_loss__d_first_algebra;
     Some ((d_loss__d_w_output, d_loss__d_b_output,
            d_loss__d_w_second_hidden, d_loss__d_b_second_hidden,
            d_loss__d_w_first_hidden, d_loss__d_b_first_hidden), s)
   }"

section \<open>Initialisation and training\<close>

text \<open>
  \<^verbatim>\<open>np.random.rand(r, c)\<close> fills an array of shape \<open>(r, c)\<close> row by row with
  the next draws of the generator. The generator is NumPy's; here it is the sequence
  of the draws it has yet to give.
\<close>

type_synonym rng = "nat \<Rightarrow> real"

definition rand :: "nat \<Rightarrow> nat \<Rightarrow> rng \<Rightarrow> real ndarray \<times> rng" where
  "rand r c g = (tab r c (\<lambda>i j. g (i * c + j)), (\<lambda>k. g (r * c + k)))"

definition init_params :: "rng \<Rightarrow> params" where
  "init_params g0 =
     (let (w1, g1) = rand 16 4 g0;
          (b1, g2) = rand 16 1 g1;
          (w2, g3) = rand 16 16 g2;
          (b2, g4) = rand 16 1 g3;
          (w3, g5) = rand 1 16 g4;
          (b3, g6) = rand 1 1 g5
      in \<lparr>w_first_hidden = w1, b_first_hidden = b1,
          w_second_hidden = w2, b_second_hidden = b2,
          w_output = w3, b_output = b3\<rparr>)"

definition epochs :: nat where
  "epochs = 100"

definition learning_rate :: real where
  "learning_rate = 0.01"

text \<open>\<^verbatim>\<open>a[i]\<close> for \<open>i\<close> from a \<^verbatim>\<open>range\<close>, and \<^verbatim>\<open>v.reshape(-1, 1)\<close>.\<close>

definition getitem :: "'a list \<Rightarrow> nat \<Rightarrow> 'a option" where
  "getitem xs i = (if i < length xs then Some (xs ! i) else None)"

definition reshape_col :: "'a list \<Rightarrow> 'a ndarray" where
  "reshape_col v = map (\<lambda>x. [x]) v"

text \<open>
  The body of the inner loop for the sample \<open>i\<close>. \<^verbatim>\<open>training_response[i]\<close> is a
  one-dimensional array of one element: it broadcasts as one row.
\<close>

definition train_step :: "real ndarray \<Rightarrow> real ndarray \<Rightarrow> nat \<Rightarrow> params \<Rightarrow> params option" where
  "train_step training_predictors training_response i s0 = do {
     predictor_row \<leftarrow> getitem training_predictors i;
     let predictor_batch = reshape_col predictor_row;
     target_row \<leftarrow> getitem training_response i;
     let target_batch = [target_row];
     ((first_algebra, first_function, second_algebra, second_function,
       output_algebra, result), s1) \<leftarrow> forward_propagation predictor_batch s0;
     ((d_loss__d_w_output, d_loss__d_b_output,
       d_loss__d_w_second_hidden, d_loss__d_b_second_hidden,
       d_loss__d_w_first_hidden, d_loss__d_b_first_hidden), s2) \<leftarrow>
         backward_propagation first_algebra first_function second_algebra second_function
           output_algebra result predictor_batch target_batch s1;
     w1 \<leftarrow> isub (w_first_hidden s2) (scalar_mul learning_rate d_loss__d_w_first_hidden);
     b1 \<leftarrow> isub (b_first_hidden s2) (scalar_mul learning_rate d_loss__d_b_first_hidden);
     w2 \<leftarrow> isub (w_second_hidden s2) (scalar_mul learning_rate d_loss__d_w_second_hidden);
     b2 \<leftarrow> isub (b_second_hidden s2) (scalar_mul learning_rate d_loss__d_b_second_hidden);
     w3 \<leftarrow> isub (w_output s2) (scalar_mul learning_rate d_loss__d_w_output);
     b3 \<leftarrow> isub (b_output s2) (scalar_mul learning_rate d_loss__d_b_output);
     Some (s2\<lparr>w_first_hidden := w1, b_first_hidden := b1,
              w_second_hidden := w2, b_second_hidden := b2,
              w_output := w3, b_output := b3\<rparr>)
   }"

text \<open>A \<^verbatim>\<open>for\<close> loop over a list of indices; an exception in the body ends it.\<close>

primrec for_loop :: "'i list \<Rightarrow> ('i \<Rightarrow> 's \<Rightarrow> 's option) \<Rightarrow> 's \<Rightarrow> 's option" where
  "for_loop [] body s = Some s"
| "for_loop (k # ks) body s = (case body k s of None \<Rightarrow> None | Some s' \<Rightarrow> for_loop ks body s')"

definition training :: "real ndarray \<Rightarrow> real ndarray \<Rightarrow> params \<Rightarrow> params option" where
  "training training_predictors training_response s =
     for_loop [0..<epochs]
       (\<lambda>epoch. for_loop [0..<length training_predictors]
                   (train_step training_predictors training_response)) s"

section \<open>Evaluation\<close>

text \<open>
  \<^verbatim>\<open>ndarray.round()\<close> rounds to the nearest integer and, half way between two
  integers, to the even one; \<^verbatim>\<open>astype(int)\<close> drops the fractional part.
\<close>

definition np_round :: "real \<Rightarrow> real" where
  "np_round v =
     (let f = \<lfloor>v\<rfloor>; d = v - of_int f
      in of_int (if d < 1 / 2 then f else if 1 / 2 < d then f + 1
                 else if even f then f else f + 1))"

definition astype_int :: "real \<Rightarrow> int" where
  "astype_int v = (if 0 \<le> v then \<lfloor>v\<rfloor> else \<lceil>v\<rceil>)"

definition predictions :: "real ndarray \<Rightarrow> params \<Rightarrow> int ndarray option" where
  "predictions testing_predictors s = do {
     ((first_algebra, first_function, second_algebra, second_function,
       output_algebra, result), s1) \<leftarrow> forward_propagation (T testing_predictors) s;
     Some (ufunc astype_int (ufunc np_round result))
   }"

section \<open>The specification's formulas\<close>

text \<open>
  The definitions of this section follow the specification, not the code: they are
  written entry by entry, with the dimensions of the network (4 inputs, two hidden
  layers of 16 units, one output) fixed. The theorems below compare the code with them.
\<close>

definition params_ok :: "params \<Rightarrow> bool" where
  "params_ok s =
     (has_shape 16 4 (w_first_hidden s) \<and> has_shape 16 1 (b_first_hidden s) \<and>
      has_shape 16 16 (w_second_hidden s) \<and> has_shape 16 1 (b_second_hidden s) \<and>
      has_shape 1 16 (w_output s) \<and> has_shape 1 1 (b_output s))"

text \<open>
  \<open>W\<cdot>v + b\<close> for \<open>W\<close> of shape \<open>(n, m)\<close>, \<open>v\<close> of shape \<open>(m, p)\<close> and a bias
  vector \<open>b\<close> of \<open>n\<close> entries, added to every column.
\<close>

definition affine ::
  "nat \<Rightarrow> nat \<Rightarrow> nat \<Rightarrow> real ndarray \<Rightarrow> real ndarray \<Rightarrow> real ndarray \<Rightarrow> real ndarray" where
  "affine n m p W v b = tab n p (\<lambda>i j. (\<Sum>k = 0..<m. W ! i ! k * v ! k ! j) + b ! i ! 0)"

text \<open>The forward pass of section 4.2 on \<open>p\<close> input columns (\<open>p = 1\<close>: one sample).\<close>

definition spec_forward :: "nat \<Rightarrow> params \<Rightarrow> real ndarray \<Rightarrow> cache" where
  "spec_forward p s x =
     (let z1 = affine 16 4 p (w_first_hidden s) x (b_first_hidden s);
          a1 = tab 16 p (\<lambda>i j. max (z1 ! i ! j) 0);
          z2 = affine 16 16 p (w_second_hidden s) a1 (b_second_hidden s);
          a2 = tab 16 p (\<lambda>i j. max (z2 ! i ! j) 0);
          z3 = affine 1 16 p (w_output s) a2 (b_output s);
          y = tab 1 p (\<lambda>i j. 1 / (1 + exp (- (z3 ! i ! j))))
      in (z1, a1, z2, a2, z3, y))"

text \<open>Step 2 of section 4.3: the derivative of the logistic function.\<close>

definition logistic' :: "real \<Rightarrow> real" where
  "logistic' x = logistic x * (1 - logistic x)"

text \<open>
  The chain rule of section 4.3 for the loss \<open>(\<^bold>y - y)\<^sup>2\<close>, in its order:
  \<open>dz3\<close>, the gradient of \<open>W3\<close>, \<open>dz2\<close>, the gradient of \<open>W2\<close>, \<open>dz1\<close>, the gradient
  of \<open>W1\<close>; the gradient of each bias is the \<open>dz\<close> of its layer.
\<close>

definition spec_backward :: "params \<Rightarrow> cache \<Rightarrow> real ndarray \<Rightarrow> real \<Rightarrow> grads" where
  "spec_backward s c x y =
     (case c of (z1, a1, z2, a2, z3, yh) \<Rightarrow>
        let dz3 = tab 1 1 (\<lambda>i j. 2 * (yh ! 0 ! 0 - y) * logistic' (z3 ! 0 ! 0));
            dW3 = tab 1 16 (\<lambda>i j. dz3 ! 0 ! 0 * a2 ! j ! 0);
            dz2 = tab 16 1 (\<lambda>i j. (w_output s ! 0 ! i * dz3 ! 0 ! 0)
                                     * (if 0 < z2 ! i ! 0 then 1 else 0));
            dW2 = tab 16 16 (\<lambda>i j. dz2 ! i ! 0 * a1 ! j ! 0);
            dz1 = tab 16 1 (\<lambda>i j. (\<Sum>k = 0..<16. w_second_hidden s ! k ! i * dz2 ! k ! 0)
                                     * (if 0 < z1 ! i ! 0 then 1 else 0));
            dW1 = tab 16 4 (\<lambda>i j. dz1 ! i ! 0 * x ! j ! 0)
        in (dW3, dz3, dW2, dz2, dW1, dz1))"

text \<open>\<open>P - \<eta>\<cdot>G\<close> for a parameter \<open>P\<close> of shape \<open>(r, c)\<close> and its gradient \<open>G\<close>.\<close>

definition sgd_update :: "nat \<Rightarrow> nat \<Rightarrow> real \<Rightarrow> real ndarray \<Rightarrow> real ndarray \<Rightarrow> real ndarray" where
  "sgd_update r c eta P G = tab r c (\<lambda>i j. P ! i ! j - eta * G ! i ! j)"

text \<open>
  One step of section 4.4 on the sample \<open>i\<close>: forward, backward on the resulting
  values, and the update of the six parameters with \<open>\<eta> = 0.01\<close>.
\<close>

definition spec_step :: "real ndarray \<Rightarrow> real ndarray \<Rightarrow> nat \<Rightarrow> params \<Rightarrow> params" where
  "spec_step xs ys i s =
     (let x = tab 4 1 (\<lambda>k j. xs ! i ! k);
          y = ys ! i ! 0
      in case spec_backward s (spec_forward 1 s x) x y of
           (dW3, db3, dW2, db2, dW1, db1) \<Rightarrow>
             \<lparr>w_first_hidden = sgd_update 16 4 (1 / 100) (w_first_hidden s) dW1,
              b_first_hidden = sgd_update 16 1 (1 / 100) (b_first_hidden s) db1,
              w_second_hidden = sgd_update 16 16 (1 / 100) (w_second_hidden s) dW2,
              b_second_hidden = sgd_update 16 1 (1 / 100) (b_second_hidden s) db2,
              w_output = sgd_update 1 16 (1 / 100) (w_output s) dW3,
              b_output = sgd_update 1 1 (1 / 100) (b_output s) db3\<rparr>)"

text \<open>
  The parameters after \<open>k\<close> steps: step number \<open>k\<close> (from 0) is in epoch
  \<open>k div N\<close> and uses the sample \<open>k mod N\<close>, for \<open>N\<close> samples.
\<close>

primrec spec_run :: "real ndarray \<Rightarrow> real ndarray \<Rightarrow> nat \<Rightarrow> params \<Rightarrow> params" where
  "spec_run xs ys 0 s = s"
| "spec_run xs ys (Suc k) s = spec_step xs ys (k mod length xs) (spec_run xs ys k s)"

text \<open>
  The column \<open>j\<close> of an array as an array of one column, and the array of \<open>n\<close> rows
  whose columns are the one-column arrays \<open>cs\<close>.
\<close>

definition column :: "'a ndarray \<Rightarrow> nat \<Rightarrow> 'a ndarray" where
  "column a j = map (\<lambda>row. [row ! j]) a"

definition hstack :: "nat \<Rightarrow> 'a ndarray list \<Rightarrow> 'a ndarray" where
  "hstack n cs = tab n (length cs) (\<lambda>k j. cs ! j ! k ! 0)"

text \<open>
  The stable form of the logistic function that section 7 of the specification
  describes: a branch on the sign, so that the exponential has a non-positive argument.
\<close>

definition spec_stable_logistic :: "real \<Rightarrow> real" where
  "spec_stable_logistic z = (if 0 \<le> z then 1 / (1 + exp (- z)) else exp z / (1 + exp z))"

section \<open>The calls of the exponential\<close>

text \<open>
  \<^verbatim>\<open>logistic\<close> and \<^verbatim>\<open>d_logistic\<close> once more, each with the list of the arguments
  it gives to \<^verbatim>\<open>np.exp\<close>, in the order of the calls. \<open>float_max\<close> is the largest
  finite binary64 number, \<open>(2 - 2\<^sup>-\<^sup>5\<^sup>2)\<cdot>2\<^sup>1\<^sup>0\<^sup>2\<^sup>3\<close>; \<^verbatim>\<open>np.exp(a)\<close> overflows when
  \<open>e\<^sup>a\<close> is larger.
\<close>

definition float_max :: real where
  "float_max = (2 ^ 53 - 1) * 2 ^ 971"

definition overflows :: "real \<Rightarrow> bool" where
  "overflows a = (float_max < exp a)"

definition np_exp :: "real \<Rightarrow> real \<times> real list" where
  "np_exp a = (exp a, [a])"

definition logistic_calls :: "real \<Rightarrow> real \<times> real list" where
  "logistic_calls x = (let (e, args) = np_exp (- x) in (1 / (1 + e), args))"

definition d_logistic_calls :: "real \<Rightarrow> real \<times> real list" where
  "d_logistic_calls x =
     (let (e1, args1) = np_exp (- x);
          (e2, args2) = np_exp (- x)
      in (e1 / (1 + e2) ^ 2, args1 @ args2))"

section \<open>The logistic function in binary64\<close>

text \<open>
  \<^verbatim>\<open>logistic\<close> as the code evaluates it, every operation rounded to binary64. A
  binary64 value is a real number or an infinity; the values \<^verbatim>\<open>logistic\<close> meets are
  never negative, so the sign of zero and NaN play no part. \<open>round_grid\<close> rounds a
  real number to the nearest multiple of the unit in its last place, \<open>2\<^sup>e\<^sup>-\<^sup>5\<^sup>2\<close> for
  \<open>2\<^sup>e \<le> \<bar>x\<bar> < 2\<^sup>e\<^sup>+\<^sup>1\<close> and \<open>2\<^sup>-\<^sup>1\<^sup>0\<^sup>7\<^sup>4\<close> below \<open>2\<^sup>-\<^sup>1\<^sup>0\<^sup>2\<^sup>2\<close>, a tie going to the even multiple;
  a result of magnitude \<open>2\<^sup>1\<^sup>0\<^sup>2\<^sup>4\<close> or more is an infinity. \<^verbatim>\<open>np.exp\<close> is NumPy's:
  here it is the exponential rounded in this way.
\<close>

datatype float64 = Fin real | PInf | NInf

definition expo :: "real \<Rightarrow> int" where
  "expo x = max \<lfloor>log 2 \<bar>x\<bar>\<rfloor> (- 1022)"

definition round_grid :: "real \<Rightarrow> real" where
  "round_grid x =
     (if x = 0 then 0
      else let u = 2 powr (of_int (expo x) - 52)
           in np_round (x / u) * u)"

definition rnd :: "real \<Rightarrow> float64" where
  "rnd x =
     (let r = round_grid x
      in if 2 ^ 1024 \<le> r then PInf else if r \<le> - (2 ^ 1024) then NInf else Fin r)"

definition np_exp64 :: "real \<Rightarrow> float64" where
  "np_exp64 a = rnd (exp a)"

text \<open>\<^verbatim>\<open>1 + v\<close> and \<^verbatim>\<open>1 / v\<close>; \<^verbatim>\<open>1 / 0.0\<close> is an infinity.\<close>

definition add_one :: "float64 \<Rightarrow> float64" where
  "add_one v = (case v of Fin e \<Rightarrow> rnd (1 + e) | PInf \<Rightarrow> PInf | NInf \<Rightarrow> NInf)"

definition one_over :: "float64 \<Rightarrow> float64" where
  "one_over v =
     (case v of Fin d \<Rightarrow> if d = 0 then PInf else rnd (1 / d) | PInf \<Rightarrow> Fin 0 | NInf \<Rightarrow> Fin 0)"

text \<open>\<^verbatim>\<open>logistic(x) = 1 / (1 + np.exp(-x))\<close> on a binary64 number \<open>x\<close>.\<close>

definition logistic64 :: "real \<Rightarrow> float64" where
  "logistic64 x = one_over (add_one (np_exp64 (- x)))"

text \<open>The order of binary64 values.\<close>

fun le64 :: "float64 \<Rightarrow> float64 \<Rightarrow> bool" where
  "le64 NInf v = True"
| "le64 v PInf = True"
| "le64 (Fin a) (Fin b) = (a \<le> b)"
| "le64 v w = False"

section \<open>Concrete inputs\<close>

definition example_params :: params where
  "example_params =
     \<lparr>w_first_hidden = tab 16 4 (\<lambda>i j. 1), b_first_hidden = tab 16 1 (\<lambda>i j. 0),
      w_second_hidden = tab 16 16 (\<lambda>i j. 1 / 16), b_second_hidden = tab 16 1 (\<lambda>i j. 0),
      w_output = tab 1 16 (\<lambda>i j. 1), b_output = tab 1 1 (\<lambda>i j. - 64)\<rparr>"

definition example_input :: "real ndarray" where
  "example_input = tab 4 1 (\<lambda>i j. 1)"

definition example_predictors :: "real ndarray" where
  "example_predictors = [[1, 1, 1, 1], [0, 0, 0, 0]]"

definition example_response :: "real ndarray" where
  "example_response = [[1], [0]]"

section \<open>Arrays of a known shape\<close>

lemma has_shape_nrows: "has_shape r c a \<Longrightarrow> nrows a = r"
  by (simp add: has_shape_def nrows_def)

lemma has_shape_ncols: "has_shape r c a \<Longrightarrow> 0 < r \<Longrightarrow> ncols a = c"
  by (cases a) (auto simp: has_shape_def ncols_def)

lemma has_shape_row: "has_shape r c a \<Longrightarrow> i < r \<Longrightarrow> length (a ! i) = c"
  by (simp add: has_shape_def list_all_length)

lemma has_shape_tab: "has_shape r c (tab r c f)"
  by (simp add: has_shape_def tab_def list_all_iff)

lemma tab_nth: "i < r \<Longrightarrow> j < c \<Longrightarrow> tab r c f ! i ! j = f i j"
  by (simp add: tab_def)

lemma tab_cong: "(\<And>i j. i < r \<Longrightarrow> j < c \<Longrightarrow> f i j = g i j) \<Longrightarrow> tab r c f = tab r c g"
  by (simp add: tab_def)

lemma has_shape_eq_tab: "has_shape r c a \<Longrightarrow> a = tab r c (\<lambda>i j. a ! i ! j)"
  by (auto simp: has_shape_def tab_def list_all_length intro!: nth_equalityI)

lemma dot_sum: "length u = n \<Longrightarrow> length v = n \<Longrightarrow> dot u v = (\<Sum>k = 0..<n. u ! k * v ! k)"
  by (auto simp: dot_def sum_list_sum_nth intro!: sum.cong)

lemma matmul_tab:
  assumes "has_shape m n a" "has_shape n p b" "0 < m" "0 < n"
  shows "matmul a b = Some (tab m p (\<lambda>i j. \<Sum>k = 0..<n. a ! i ! k * b ! k ! j))"
proof -
  have nc: "ncols a = n" "nrows b = n" "ncols b = p" "length a = m" "length b = n"
    using assms by (simp_all add: has_shape_nrows has_shape_ncols) (simp_all add: has_shape_def)
  have "map (\<lambda>row. map (\<lambda>j. dot row (col b j)) [0..<p]) a
      = tab m p (\<lambda>i j. \<Sum>k = 0..<n. a ! i ! k * b ! k ! j)"
    unfolding tab_def
  proof (rule nth_equalityI; simp add: nc)
    fix i assume "i < m"
    then have "length (a ! i) = n" using assms(1) by (rule has_shape_row[rotated])
    then show "\<forall>j \<in> {0..<p}. dot (a ! i) (col b j) = (\<Sum>k = 0..<n. a ! i ! k * b ! k ! j)"
      by (auto simp: dot_sum[where n = n] col_def nc intro!: sum.cong)
  qed
  then show ?thesis by (simp add: matmul_def nc)
qed

lemma elementwise_tab:
  assumes "has_shape r c a" "has_shape r' c' b" "0 < r" "0 < r'"
    and "bdim r r' = Some R" "bdim c c' = Some C"
  shows "elementwise f a b = Some (tab R C (\<lambda>i j.
           f (a ! (if r = 1 then 0 else i) ! (if c = 1 then 0 else j))
             (b ! (if r' = 1 then 0 else i) ! (if c' = 1 then 0 else j))))"
proof -
  have nc: "nrows a = r" "ncols a = c" "nrows b = r'" "ncols b = c'"
    using assms by (simp_all add: has_shape_nrows has_shape_ncols)
  show ?thesis
    by (simp add: elementwise_def nc assms broadcast_to_def tab_def zip_map_map
        zip_same_conv_map comp_def)
     
qed

lemma ufunc_tab: "has_shape r c a \<Longrightarrow> ufunc f a = tab r c (\<lambda>i j. f (a ! i ! j))"
  by (auto simp: ufunc_def has_shape_def tab_def list_all_length intro!: nth_equalityI)

lemma T_tab:
  assumes "has_shape r c a" "0 < r"
  shows "T a = tab c r (\<lambda>i j. a ! j ! i)"
proof -
  have "ncols a = c" "length a = r"
    using assms by (simp_all add: has_shape_ncols) (simp add: has_shape_def)
  then show ?thesis
    by (auto simp: T_def col_def tab_def intro!: nth_equalityI)
qed

section \<open>The forward pass\<close>

lemma add_bias:
  assumes "has_shape n p a" "has_shape n 1 b" "0 < n"
  shows "add a b = Some (tab n p (\<lambda>i j. a ! i ! j + b ! i ! 0))"
proof -
  have "bdim n n = Some n" "bdim p 1 = Some p"
    by (simp_all add: bdim_def)
  from elementwise_tab[OF assms(1,2) assms(3) assms(3) this, of "(+)"]
  have "add a b = Some (tab n p (\<lambda>i j. a ! (if n = 1 then 0 else i) ! (if p = 1 then 0 else j)
                 + b ! (if n = 1 then 0 else i) ! 0))"
    by (simp add: add_def)
  moreover have "tab n p (\<lambda>i j. a ! (if n = 1 then 0 else i) ! (if p = 1 then 0 else j)
                 + b ! (if n = 1 then 0 else i) ! 0) = tab n p (\<lambda>i j. a ! i ! j + b ! i ! 0)"
    by (rule tab_cong) auto
  ultimately show ?thesis by simp
qed

lemma layer_affine:
  assumes "has_shape n m W" "has_shape m p v" "has_shape n 1 b" "0 < n" "0 < m"
  shows "matmul W v \<bind> (\<lambda>q. add q b) = Some (affine n m p W v b)"
proof -
  let ?q = "tab n p (\<lambda>i j. \<Sum>k = 0..<m. W ! i ! k * v ! k ! j)"
  have "matmul W v = Some ?q"
    using assms by (simp add: matmul_tab)
  moreover have "add ?q b = Some (tab n p (\<lambda>i j. ?q ! i ! j + b ! i ! 0))"
    using assms by (simp add: add_bias has_shape_tab)
  moreover have "tab n p (\<lambda>i j. ?q ! i ! j + b ! i ! 0) = affine n m p W v b"
    unfolding affine_def by (rule tab_cong) (simp add: tab_nth)
  ultimately show ?thesis by simp
qed

lemma has_shape_affine: "has_shape n p (affine n m p W v b)"
  by (simp add: affine_def has_shape_tab)

lemma forward_propagation_spec:
  assumes "params_ok s" "has_shape 4 p x"
  shows "forward_propagation x s = Some (spec_forward p s x, s)"
proof -
  let ?z1 = "affine 16 4 p (w_first_hidden s) x (b_first_hidden s)"
  let ?a1 = "tab 16 p (\<lambda>i j. max (?z1 ! i ! j) 0)"
  let ?z2 = "affine 16 16 p (w_second_hidden s) ?a1 (b_second_hidden s)"
  let ?a2 = "tab 16 p (\<lambda>i j. max (?z2 ! i ! j) 0)"
  let ?z3 = "affine 1 16 p (w_output s) ?a2 (b_output s)"
  have 1: "matmul (w_first_hidden s) x \<bind> (\<lambda>q. add q (b_first_hidden s)) = Some ?z1"
    using assms by (intro layer_affine) (simp_all add: params_ok_def)
  have r1: "ufunc relu ?z1 = ?a1"
    by (simp add: ufunc_tab[OF has_shape_affine] relu_def)
  have 2: "matmul (w_second_hidden s) ?a1 \<bind> (\<lambda>q. add q (b_second_hidden s)) = Some ?z2"
    using assms by (intro layer_affine) (simp_all add: params_ok_def has_shape_tab)
  have r2: "ufunc relu ?z2 = ?a2"
    by (simp add: ufunc_tab[OF has_shape_affine] relu_def)
  have 3: "matmul (w_output s) ?a2 \<bind> (\<lambda>q. add q (b_output s)) = Some ?z3"
    using assms by (intro layer_affine) (simp_all add: params_ok_def has_shape_tab)
  have r3: "ufunc logistic ?z3 = tab 1 p (\<lambda>i j. 1 / (1 + exp (- (?z3 ! i ! j))))"
    by (simp add: ufunc_tab[OF has_shape_affine] logistic_def)
  have "forward_propagation x s =
      (matmul (w_first_hidden s) x \<bind> (\<lambda>q. add q (b_first_hidden s))) \<bind> (\<lambda>first_algebra.
       let first_function = ufunc relu first_algebra in
       (matmul (w_second_hidden s) first_function \<bind> (\<lambda>q. add q (b_second_hidden s))) \<bind> (\<lambda>second_algebra.
       let second_function = ufunc relu second_algebra in
       (matmul (w_output s) second_function \<bind> (\<lambda>q. add q (b_output s))) \<bind> (\<lambda>output_algebra.
       Some ((first_algebra, first_function, second_algebra, second_function,
            output_algebra, ufunc logistic output_algebra), s))))"
    by (simp add: forward_propagation_def Let_def)
  also have "\<dots> = Some (spec_forward p s x, s)"
    by (simp only: 1 bind.bind_lunit Let_def r1 2 r2 3 r3 spec_forward_def)
  finally show ?thesis .
qed

section \<open>The backward pass, step by step\<close>

lemma d_logistic_eq: "d_logistic x = logistic' x"
proof -
  have "1 + exp (- x) \<noteq> 0" using exp_gt_zero[of "- x"] by linarith
  then show ?thesis
    by (simp add: d_logistic_def logistic'_def logistic_def field_simps power2_eq_square)
qed

lemma elementwise_same:
  assumes "has_shape r c a" "has_shape r c b" "0 < r"
  shows "elementwise f a b = Some (tab r c (\<lambda>i j. f (a ! i ! j) (b ! i ! j)))"
proof -
  have "bdim r r = Some r" "bdim c c = Some c"
    by (simp_all add: bdim_def)
  from elementwise_tab[OF assms(1,2) assms(3) assms(3) this, of f]
  have "elementwise f a b = Some (tab r c (\<lambda>i j.
            f (a ! (if r = 1 then 0 else i) ! (if c = 1 then 0 else j))
              (b ! (if r = 1 then 0 else i) ! (if c = 1 then 0 else j))))" .
  moreover have "tab r c (\<lambda>i j.
            f (a ! (if r = 1 then 0 else i) ! (if c = 1 then 0 else j))
              (b ! (if r = 1 then 0 else i) ! (if c = 1 then 0 else j)))
     = tab r c (\<lambda>i j. f (a ! i ! j) (b ! i ! j))"
    by (rule tab_cong) auto
  ultimately show ?thesis by simp
qed

lemma outer_product:
  assumes "has_shape n 1 u" "has_shape m 1 v" "0 < n" "0 < m"
  shows "matmul u (T v) = Some (tab n m (\<lambda>i j. u ! i ! 0 * v ! j ! 0))"
proof -
  have t: "T v = tab 1 m (\<lambda>i j. v ! j ! i)"
    using assms by (simp add: T_tab)
  have "matmul u (T v) = Some (tab n m (\<lambda>i j. \<Sum>k = 0..<1. u ! i ! k * T v ! k ! j))"
    using assms by (intro matmul_tab) (simp_all add: t has_shape_tab)
  moreover have "tab n m (\<lambda>i j. \<Sum>k = 0..<1. u ! i ! k * T v ! k ! j)
      = tab n m (\<lambda>i j. u ! i ! 0 * v ! j ! 0)"
    by (rule tab_cong) (simp add: t tab_nth)
  ultimately show ?thesis by simp
qed

lemma matmul_T:
  assumes "has_shape n m W" "has_shape n p d" "0 < n" "0 < m"
  shows "matmul (T W) d = Some (tab m p (\<lambda>i j. \<Sum>k = 0..<n. W ! k ! i * d ! k ! j))"
proof -
  have t: "T W = tab m n (\<lambda>i j. W ! j ! i)"
    using assms by (simp add: T_tab)
  have "matmul (T W) d = Some (tab m p (\<lambda>i j. \<Sum>k = 0..<n. T W ! i ! k * d ! k ! j))"
    using assms by (intro matmul_tab) (simp_all add: t has_shape_tab)
  moreover have "tab m p (\<lambda>i j. \<Sum>k = 0..<n. T W ! i ! k * d ! k ! j)
      = tab m p (\<lambda>i j. \<Sum>k = 0..<n. W ! k ! i * d ! k ! j)"
    by (rule tab_cong) (simp add: t tab_nth)
  ultimately show ?thesis by simp
qed

lemma mask_layer:
  assumes "has_shape m 1 z" "has_shape m 1 q" "0 < m"
  shows "mask_mul (ufunc d_relu z) q
       = Some (tab m 1 (\<lambda>i j. q ! i ! 0 * (if 0 < z ! i ! 0 then 1 else 0)))"
proof -
  have u: "ufunc d_relu z = tab m 1 (\<lambda>i j. d_relu (z ! i ! j))"
    using assms by (simp add: ufunc_tab)
  have "mask_mul (ufunc d_relu z) q
      = Some (tab m 1 (\<lambda>i j. of_bool (ufunc d_relu z ! i ! j) * q ! i ! j))"
    unfolding mask_mul_def using assms by (intro elementwise_same) (simp_all add: u has_shape_tab)
  moreover have "tab m 1 (\<lambda>i j. of_bool (ufunc d_relu z ! i ! j) * q ! i ! j)
      = tab m 1 (\<lambda>i j. q ! i ! 0 * (if 0 < z ! i ! 0 then 1 else 0))"
    by (rule tab_cong) (simp add: u tab_nth d_relu_def)
  ultimately show ?thesis by simp
qed

lemma has_shape_singleton: "has_shape 1 1 [[y]]"
  by (simp add: has_shape_def)

lemma output_delta:
  assumes "has_shape 1 1 z3" "has_shape 1 1 yh"
  shows "sub yh [[y]] = Some (tab 1 1 (\<lambda>i j. yh ! 0 ! 0 - y))"
    and "mul (scalar_mul 2 (tab 1 1 (\<lambda>i j. yh ! 0 ! 0 - y))) (ufunc d_logistic z3)
       = Some (tab 1 1 (\<lambda>i j. 2 * (yh ! 0 ! 0 - y) * logistic' (z3 ! 0 ! 0)))"
proof -
  have "sub yh [[y]] = Some (tab 1 1 (\<lambda>i j. yh ! i ! j - [[y]] ! i ! j))"
    unfolding sub_def using assms has_shape_singleton[of y] by (intro elementwise_same) simp_all
  moreover have "tab 1 1 (\<lambda>i j. yh ! i ! j - [[y]] ! i ! j) = tab 1 1 (\<lambda>i j. yh ! 0 ! 0 - y)"
    by (rule tab_cong) simp
  ultimately show "sub yh [[y]] = Some (tab 1 1 (\<lambda>i j. yh ! 0 ! 0 - y))" by simp
  let ?a = "scalar_mul 2 (tab 1 1 (\<lambda>i j. yh ! 0 ! 0 - y))"
  let ?b = "ufunc d_logistic z3"
  have a: "?a = tab 1 1 (\<lambda>i j. 2 * (yh ! 0 ! 0 - y))"
    unfolding scalar_mul_def ufunc_tab[OF has_shape_tab]
    by (rule tab_cong) (simp add: tab_nth)
  have b: "?b = tab 1 1 (\<lambda>i j. d_logistic (z3 ! i ! j))"
    using assms by (simp add: ufunc_tab)
  have "mul ?a ?b = Some (tab 1 1 (\<lambda>i j. ?a ! i ! j * ?b ! i ! j))"
    unfolding mul_def by (intro elementwise_same) (simp_all only: a b has_shape_tab zero_less_one)
  moreover have "tab 1 1 (\<lambda>i j. ?a ! i ! j * ?b ! i ! j)
      = tab 1 1 (\<lambda>i j. 2 * (yh ! 0 ! 0 - y) * logistic' (z3 ! 0 ! 0))"
    unfolding a b by (rule tab_cong) (simp add: tab_nth d_logistic_eq)
  ultimately show "mul ?a ?b = Some (tab 1 1 (\<lambda>i j. 2 * (yh ! 0 ! 0 - y) * logistic' (z3 ! 0 ! 0)))"
    by simp
qed

lemma backward_propagation_spec:
  assumes W: "has_shape 1 16 (w_output s)" "has_shape 16 16 (w_second_hidden s)"
    and c: "has_shape 16 1 z1" "has_shape 16 1 a1" "has_shape 16 1 z2" "has_shape 16 1 a2"
           "has_shape 1 1 z3" "has_shape 1 1 yh"
    and x: "has_shape 4 1 x"
  shows "backward_propagation z1 a1 z2 a2 z3 yh x [[y]] s
       = Some (spec_backward s (z1, a1, z2, a2, z3, yh) x y, s)"
proof -
  define D3 where "D3 = tab 1 1 (\<lambda>i j. 2 * (yh ! 0 ! 0 - y) * logistic' (z3 ! 0 ! 0))"
  define G3 where "G3 = tab 1 16 (\<lambda>i j. D3 ! 0 ! 0 * a2 ! j ! 0)"
  define Q2 where "Q2 = tab 16 1 (\<lambda>i j. \<Sum>k = 0..<1. w_output s ! k ! i * D3 ! k ! j)"
  define D2 where "D2 = tab 16 1 (\<lambda>i j. (w_output s ! 0 ! i * D3 ! 0 ! 0) * (if 0 < z2 ! i ! 0 then 1 else 0))"
  define G2 where "G2 = tab 16 16 (\<lambda>i j. D2 ! i ! 0 * a1 ! j ! 0)"
  define Q1 where "Q1 = tab 16 1 (\<lambda>i j. \<Sum>k = 0..<16. w_second_hidden s ! k ! i * D2 ! k ! j)"
  define D1 where "D1 = tab 16 1 (\<lambda>i j. (\<Sum>k = 0..<16. w_second_hidden s ! k ! i * D2 ! k ! 0)
                                     * (if 0 < z1 ! i ! 0 then 1 else 0))"
  define G1 where "G1 = tab 16 4 (\<lambda>i j. D1 ! i ! 0 * x ! j ! 0)"
  have sh: "has_shape 1 1 D3" "has_shape 16 1 Q2" "has_shape 16 1 D2" "has_shape 16 1 Q1"
      "has_shape 16 1 D1"
    by (simp_all add: D3_def Q2_def D2_def Q1_def D1_def has_shape_tab)
  note od = output_delta[OF c(5,6), of y, folded D3_def]
  have g3: "matmul D3 (T a2) = Some G3"
  proof -
    have "matmul D3 (T a2) = Some (tab 1 16 (\<lambda>i j. D3 ! i ! 0 * a2 ! j ! 0))"
      using sh c by (intro outer_product) simp_all
    moreover have "tab 1 16 (\<lambda>i j. D3 ! i ! 0 * a2 ! j ! 0) = G3"
      unfolding G3_def by (rule tab_cong) simp
    ultimately show ?thesis by simp
  qed
  have q2: "matmul (T (w_output s)) D3 = Some Q2"
    unfolding Q2_def using W sh by (intro matmul_T) simp_all
  have d2: "mask_mul (ufunc d_relu z2) Q2 = Some D2"
  proof -
    have "mask_mul (ufunc d_relu z2) Q2
        = Some (tab 16 1 (\<lambda>i j. Q2 ! i ! 0 * (if 0 < z2 ! i ! 0 then 1 else 0)))"
      using sh c by (intro mask_layer) simp_all
    moreover have "tab 16 1 (\<lambda>i j. Q2 ! i ! 0 * (if 0 < z2 ! i ! 0 then 1 else 0)) = D2"
      unfolding D2_def by (rule tab_cong) (simp add: Q2_def tab_nth)
    ultimately show ?thesis by simp
  qed
  have g2: "matmul D2 (T a1) = Some G2"
    unfolding G2_def using sh c by (intro outer_product) simp_all
  have q1: "matmul (T (w_second_hidden s)) D2 = Some Q1"
    unfolding Q1_def using W sh by (intro matmul_T) simp_all
  have d1: "mask_mul (ufunc d_relu z1) Q1 = Some D1"
  proof -
    have "mask_mul (ufunc d_relu z1) Q1
        = Some (tab 16 1 (\<lambda>i j. Q1 ! i ! 0 * (if 0 < z1 ! i ! 0 then 1 else 0)))"
      using sh c by (intro mask_layer) simp_all
    moreover have "tab 16 1 (\<lambda>i j. Q1 ! i ! 0 * (if 0 < z1 ! i ! 0 then 1 else 0)) = D1"
      unfolding D1_def by (rule tab_cong) (simp add: Q1_def tab_nth)
    ultimately show ?thesis by simp
  qed
  have g1: "matmul D1 (T x) = Some G1"
    unfolding G1_def using sh x by (intro outer_product) simp_all
  have "backward_propagation z1 a1 z2 a2 z3 yh x [[y]] s = Some ((G3, D3, G2, D2, G1, D1), s)"
    by (simp only: backward_propagation_def Let_def od g3 q2 d2 g2 q1 d1 g1 bind.bind_lunit)
  moreover have "spec_backward s (z1, a1, z2, a2, z3, yh) x y = (G3, D3, G2, D2, G1, D1)"
    by (simp only: spec_backward_def Let_def prod.case D3_def G3_def D2_def G2_def D1_def G1_def)
  ultimately show ?thesis by simp
qed

section \<open>The training loop\<close>

lemma isub_update:
  assumes "has_shape r c P" "has_shape r c G" "0 < r"
  shows "isub P (scalar_mul eta G) = Some (sgd_update r c eta P G)"
proof -
  have g: "scalar_mul eta G = tab r c (\<lambda>i j. eta * G ! i ! j)"
    using assms by (simp add: scalar_mul_def ufunc_tab)
  have "sub P (scalar_mul eta G) = Some (tab r c (\<lambda>i j. P ! i ! j - scalar_mul eta G ! i ! j))"
    unfolding sub_def using assms by (intro elementwise_same) (simp_all only: g has_shape_tab)
  moreover have "tab r c (\<lambda>i j. P ! i ! j - scalar_mul eta G ! i ! j) = sgd_update r c eta P G"
    unfolding sgd_update_def g by (rule tab_cong) (simp add: tab_nth)
  moreover have "nrows (sgd_update r c eta P G) = nrows P" "ncols (sgd_update r c eta P G) = ncols P"
    using assms has_shape_tab[of r c "\<lambda>i j. P ! i ! j - eta * G ! i ! j"]
    by (simp_all add: sgd_update_def has_shape_nrows has_shape_ncols)
  ultimately show ?thesis by (simp add: isub_def)
qed

lemma has_shape_sgd_update: "has_shape r c (sgd_update r c eta P G)"
  by (simp add: sgd_update_def has_shape_tab)

lemma spec_forward_shapes:
  assumes "spec_forward p s x = (z1, a1, z2, a2, z3, yh)"
  shows "has_shape 16 p z1" "has_shape 16 p a1" "has_shape 16 p z2" "has_shape 16 p a2"
        "has_shape 1 p z3" "has_shape 1 p yh"
  using assms by (auto simp: spec_forward_def Let_def has_shape_tab has_shape_affine)

lemma spec_backward_shapes:
  assumes "spec_backward s c x y = (dW3, db3, dW2, db2, dW1, db1)"
  shows "has_shape 1 16 dW3" "has_shape 1 1 db3" "has_shape 16 16 dW2" "has_shape 16 1 db2"
        "has_shape 16 4 dW1" "has_shape 16 1 db1"
  using assms by (auto simp: spec_backward_def Let_def has_shape_tab split: prod.splits)

lemma params_ok_spec_step: "params_ok (spec_step xs ys i s)"
  by (simp add: spec_step_def Let_def params_ok_def has_shape_sgd_update split: prod.splits)

lemma reshape_col_tab: "length v = n \<Longrightarrow> reshape_col v = tab n 1 (\<lambda>k j. v ! k)"
  by (auto simp: reshape_col_def tab_def intro!: nth_equalityI)

lemma train_step_spec:
  assumes ok: "params_ok s" and xs: "has_shape N 4 xs" and ys: "has_shape N 1 ys" and i: "i < N"
  shows "train_step xs ys i s = Some (spec_step xs ys i s)"
proof -
  define x where "x = tab 4 1 (\<lambda>k (j::nat). xs ! i ! k)"
  define y where "y = ys ! i ! 0"
  obtain z1 a1 z2 a2 z3 yh where f: "spec_forward 1 s x = (z1, a1, z2, a2, z3, yh)"
    by (metis prod_cases6)
  obtain dW3 db3 dW2 db2 dW1 db1
    where b: "spec_backward s (z1, a1, z2, a2, z3, yh) x y = (dW3, db3, dW2, db2, dW1, db1)"
    by (metis prod_cases6)
  have gx: "getitem xs i = Some (xs ! i)" and gy: "getitem ys i = Some (ys ! i)"
    using xs ys i by (simp_all add: getitem_def has_shape_def)
  have rx: "reshape_col (xs ! i) = x"
    unfolding x_def using has_shape_row[OF xs i] by (rule reshape_col_tab)
  have "length (ys ! i) = 1"
    using has_shape_row[OF ys i] .
  then have ry: "[ys ! i] = [[y]]"
    unfolding y_def by (cases "ys ! i") simp_all
  have shx: "has_shape 4 1 x"
    by (simp add: x_def has_shape_tab)
  have fw: "forward_propagation x s = Some ((z1, a1, z2, a2, z3, yh), s)"
    using forward_propagation_spec[OF ok shx] f by simp
  note fs = spec_forward_shapes[OF f]
  have bw: "backward_propagation z1 a1 z2 a2 z3 yh x [[y]] s
      = Some ((dW3, db3, dW2, db2, dW1, db1), s)"
    using backward_propagation_spec[OF _ _ fs shx, of s y] ok b by (simp add: params_ok_def)
  note bs = spec_backward_shapes[OF b]
  have u: "isub (w_first_hidden s) (scalar_mul learning_rate dW1)
             = Some (sgd_update 16 4 (1 / 100) (w_first_hidden s) dW1)"
          "isub (b_first_hidden s) (scalar_mul learning_rate db1)
             = Some (sgd_update 16 1 (1 / 100) (b_first_hidden s) db1)"
          "isub (w_second_hidden s) (scalar_mul learning_rate dW2)
             = Some (sgd_update 16 16 (1 / 100) (w_second_hidden s) dW2)"
          "isub (b_second_hidden s) (scalar_mul learning_rate db2)
             = Some (sgd_update 16 1 (1 / 100) (b_second_hidden s) db2)"
          "isub (w_output s) (scalar_mul learning_rate dW3)
             = Some (sgd_update 1 16 (1 / 100) (w_output s) dW3)"
          "isub (b_output s) (scalar_mul learning_rate db3)
             = Some (sgd_update 1 1 (1 / 100) (b_output s) db3)"
    using ok bs by (simp_all add: params_ok_def isub_update learning_rate_def)
  have "train_step xs ys i s =
      Some (s\<lparr>w_first_hidden := sgd_update 16 4 (1 / 100) (w_first_hidden s) dW1,
              b_first_hidden := sgd_update 16 1 (1 / 100) (b_first_hidden s) db1,
              w_second_hidden := sgd_update 16 16 (1 / 100) (w_second_hidden s) dW2,
              b_second_hidden := sgd_update 16 1 (1 / 100) (b_second_hidden s) db2,
              w_output := sgd_update 1 16 (1 / 100) (w_output s) dW3,
              b_output := sgd_update 1 1 (1 / 100) (b_output s) db3\<rparr>)"
    by (simp only: train_step_def gx gy rx ry Let_def fw bw u bind.bind_lunit prod.case)
  moreover have "spec_step xs ys i s =
       \<lparr>w_first_hidden = sgd_update 16 4 (1 / 100) (w_first_hidden s) dW1,
        b_first_hidden = sgd_update 16 1 (1 / 100) (b_first_hidden s) db1,
        w_second_hidden = sgd_update 16 16 (1 / 100) (w_second_hidden s) dW2,
        b_second_hidden = sgd_update 16 1 (1 / 100) (b_second_hidden s) db2,
        w_output = sgd_update 1 16 (1 / 100) (w_output s) dW3,
        b_output = sgd_update 1 1 (1 / 100) (b_output s) db3\<rparr>"
    by (simp only: spec_step_def Let_def x_def[symmetric] y_def[symmetric] f b prod.case)
  ultimately show ?thesis by (cases s) simp
qed

lemma for_loop_fold:
  assumes "\<And>k s. k \<in> set ks \<Longrightarrow> I s \<Longrightarrow> body k s = Some (f k s) \<and> I (f k s)" and "I s"
  shows "for_loop ks body s = Some (fold f ks s) \<and> I (fold f ks s)"
  using assms by (induction ks arbitrary: s) auto

lemma fold_const_funpow: "fold (\<lambda>_. g) [0..<n] s = (g ^^ n) s"
  by (induction n) simp_all

lemma spec_run_pass:
  assumes "i \<le> length xs"
  shows "spec_run xs ys (m * length xs + i) s
       = fold (spec_step xs ys) [0..<i] (spec_run xs ys (m * length xs) s)"
  using assms by (induction i) simp_all

lemma spec_run_epochs:
  "spec_run xs ys (m * length xs) s = (fold (spec_step xs ys) [0..<length xs] ^^ m) s"
proof (induction m)
  case 0
  show ?case by simp
next
  case (Suc m)
  have "spec_run xs ys (Suc m * length xs) s = spec_run xs ys (m * length xs + length xs) s"
    by (simp add: add.commute)
  also have "\<dots> = fold (spec_step xs ys) [0..<length xs] (spec_run xs ys (m * length xs) s)"
    by (rule spec_run_pass) simp
  finally show ?case by (simp add: Suc.IH)
qed

lemma training_spec:
  assumes ok: "params_ok s" and xs: "has_shape N 4 xs" and ys: "has_shape N 1 ys"
  shows "training xs ys s = Some (spec_run xs ys (100 * N) s)"
    and "params_ok (spec_run xs ys (100 * N) s)"
proof -
  have N: "length xs = N" using xs by (simp add: has_shape_def)
  let ?pass = "fold (spec_step xs ys) [0..<N]"
  have inner: "for_loop [0..<N] (train_step xs ys) t = Some (?pass t) \<and> params_ok (?pass t)"
    if "params_ok t" for t
  proof (rule for_loop_fold[where I = params_ok])
    show "params_ok t" by (rule that)
  next
    fix k u assume "k \<in> set [0..<N]" "params_ok u"
    then show "train_step xs ys k u = Some (spec_step xs ys k u) \<and> params_ok (spec_step xs ys k u)"
      using train_step_spec[OF _ xs ys, of u k] by (simp add: params_ok_spec_step)
  qed
  have outer: "for_loop [0..<epochs] (\<lambda>epoch. for_loop [0..<N] (train_step xs ys)) s
      = Some (fold (\<lambda>epoch. ?pass) [0..<epochs] s) \<and> params_ok (fold (\<lambda>epoch. ?pass) [0..<epochs] s)"
    by (rule for_loop_fold[where I = params_ok]) (simp_all add: inner ok)
  have e: "fold (\<lambda>epoch. ?pass) [0..<epochs] s = spec_run xs ys (100 * N) s"
    using spec_run_epochs[of xs ys 100 s] by (simp add: fold_const_funpow epochs_def N)
  show "training xs ys s = Some (spec_run xs ys (100 * N) s)"
    using outer by (simp add: training_def N e)
  show "params_ok (spec_run xs ys (100 * N) s)"
    using outer by (simp add: e)
qed

section \<open>The logistic function\<close>

lemma logistic_pos: "0 < logistic x"
  by (simp add: logistic_def add_pos_pos)

lemma logistic_less_one: "logistic x < 1"
  by (simp add: logistic_def add_pos_pos)

lemma logistic_zero: "logistic 0 = 1 / 2"
  by (simp add: logistic_def)

lemma logistic_strict_mono:
  assumes "x < x'"
  shows "logistic x < logistic x'"
proof -
  have "exp (- x') < exp (- x)" using assms by simp
  then have "1 + exp (- x') < 1 + exp (- x)" by simp
  moreover have "0 < 1 + exp (- x')" by (simp add: add_pos_pos)
  ultimately have "1 / (1 + exp (- x)) < 1 / (1 + exp (- x'))"
    by (simp add: frac_less2)
  then show ?thesis by (simp add: logistic_def)
qed


section \<open>The concrete inputs\<close>

lemma tab_cong_simp:
  "r = r' \<Longrightarrow> c = c' \<Longrightarrow> (\<And>i j. i < r' \<Longrightarrow> j < c' \<Longrightarrow> f i j = g i j)
     \<Longrightarrow> tab r c f = tab r' c' g"
  by (simp add: tab_def)

lemma params_ok_example: "params_ok example_params"
  by (simp add: params_ok_def example_params_def has_shape_tab)

lemma has_shape_example_input: "has_shape 4 1 example_input"
  by (simp add: example_input_def has_shape_tab)

lemma has_shape_example_data:
  "has_shape 2 4 example_predictors" "has_shape 2 1 example_response"
  by (simp_all add: example_predictors_def example_response_def has_shape_def)

lemma spec_forward_example:
  "spec_forward 1 example_params example_input
     = (tab 16 1 (\<lambda>i j. 4), tab 16 1 (\<lambda>i j. 4), tab 16 1 (\<lambda>i j. 4), tab 16 1 (\<lambda>i j. 4),
        tab 1 1 (\<lambda>i j. 0), tab 1 1 (\<lambda>i j. 1 / 2))"
  by (simp add: spec_forward_def example_params_def example_input_def affine_def Let_def tab_nth
      cong: tab_cong_simp)

lemma logistic'_zero: "logistic' 0 = 1 / 4"
  by (simp add: logistic'_def logistic_def)

lemma spec_backward_example:
  "spec_backward example_params
      (tab 16 1 (\<lambda>i j. 4), tab 16 1 (\<lambda>i j. 4), tab 16 1 (\<lambda>i j. 4), tab 16 1 (\<lambda>i j. 4),
        tab 1 1 (\<lambda>i j. 0), tab 1 1 (\<lambda>i j. 1 / 2)) example_input 1
     = (tab 1 16 (\<lambda>i j. - 1), tab 1 1 (\<lambda>i j. - (1 / 4)), tab 16 16 (\<lambda>i j. - 1),
        tab 16 1 (\<lambda>i j. - (1 / 4)), tab 16 4 (\<lambda>i j. - (1 / 4)), tab 16 1 (\<lambda>i j. - (1 / 4)))"
  by (simp add: spec_backward_def example_params_def example_input_def Let_def tab_nth
      logistic'_zero cong: tab_cong_simp)

lemma spec_backward_example_zero_output:
  "spec_backward (example_params\<lparr>w_output := tab 1 16 (\<lambda>i j. 0)\<rparr>)
      (tab 16 1 (\<lambda>i j. 4), tab 16 1 (\<lambda>i j. 4), tab 16 1 (\<lambda>i j. 4), tab 16 1 (\<lambda>i j. 4),
        tab 1 1 (\<lambda>i j. 0), tab 1 1 (\<lambda>i j. 1 / 2)) example_input 1
     = (tab 1 16 (\<lambda>i j. - 1), tab 1 1 (\<lambda>i j. - (1 / 4)), tab 16 16 (\<lambda>i j. 0),
        tab 16 1 (\<lambda>i j. 0), tab 16 4 (\<lambda>i j. 0), tab 16 1 (\<lambda>i j. 0))"
  by (simp add: spec_backward_def example_params_def example_input_def Let_def tab_nth
      logistic'_zero cong: tab_cong_simp)

lemma T_row_of_ones: "T [[1, 1, 1, 1]] = example_input"
  by (simp add: T_def col_def ncols_def example_input_def tab_def upt_rec)

section \<open>Initialisation\<close>

lemma params_ok_init_params: "params_ok (init_params g)"
  by (simp add: init_params_def rand_def params_ok_def has_shape_tab)

section \<open>The columns of a batch\<close>

lemma column_tab: "j < p \<Longrightarrow> column (tab n p f) j = tab n 1 (\<lambda>i k. f i j)"
  by (simp add: column_def tab_def)

lemma column_nth: "i < length a \<Longrightarrow> column a j ! i ! 0 = a ! i ! j"
  by (simp add: column_def)

lemma affine_column:
  assumes "j < p" "has_shape m p v"
  shows "column (affine n m p W v b) j = affine n m 1 W (column v j) b"
proof -
  have l: "length v = m" using assms by (simp add: has_shape_def)
  have "tab n 1 (\<lambda>i k. (\<Sum>k' = 0..<m. W ! i ! k' * v ! k' ! j) + b ! i ! 0)
      = tab n 1 (\<lambda>i k. (\<Sum>k' = 0..<m. W ! i ! k' * column v j ! k' ! k) + b ! i ! 0)"
    by (rule tab_cong) (simp add: column_nth l)
  then show ?thesis
    using assms by (simp only: affine_def column_tab)
qed

lemma pointwise_column:
  assumes "j < p" "has_shape n p Z"
  shows "column (tab n p (\<lambda>i j. f (Z ! i ! j))) j = tab n 1 (\<lambda>i k. f (column Z j ! i ! k))"
proof -
  have l: "length Z = n" using assms by (simp add: has_shape_def)
  have "tab n 1 (\<lambda>i k. f (Z ! i ! j)) = tab n 1 (\<lambda>i k. f (column Z j ! i ! k))"
    by (rule tab_cong) (simp add: column_nth l)
  then show ?thesis
    using assms by (simp only: column_tab)
qed

lemma spec_forward_column:
  assumes "j < p" "has_shape 4 p X"
  shows "spec_forward 1 s (column X j) =
     (case spec_forward p s X of (z1, a1, z2, a2, z3, yh) \<Rightarrow>
        (column z1 j, column a1 j, column z2 j, column a2 j, column z3 j, column yh j))"
proof -
  let ?z1 = "affine 16 4 p (w_first_hidden s) X (b_first_hidden s)"
  let ?a1 = "tab 16 p (\<lambda>i j. max (?z1 ! i ! j) 0)"
  let ?z2 = "affine 16 16 p (w_second_hidden s) ?a1 (b_second_hidden s)"
  let ?a2 = "tab 16 p (\<lambda>i j. max (?z2 ! i ! j) 0)"
  let ?z3 = "affine 1 16 p (w_output s) ?a2 (b_output s)"
  let ?y = "tab 1 p (\<lambda>i j. 1 / (1 + exp (- (?z3 ! i ! j))))"
  have 1: "column ?z1 j = affine 16 4 1 (w_first_hidden s) (column X j) (b_first_hidden s)"
    using assms by (rule affine_column)
  have 2: "column ?a1 j = tab 16 1 (\<lambda>i k. max (column ?z1 j ! i ! k) 0)"
    using assms(1) has_shape_affine by (rule pointwise_column[where f = "\<lambda>v. max v 0"])
  have 3: "column ?z2 j = affine 16 16 1 (w_second_hidden s) (column ?a1 j) (b_second_hidden s)"
    using assms(1) has_shape_tab by (rule affine_column)
  have 4: "column ?a2 j = tab 16 1 (\<lambda>i k. max (column ?z2 j ! i ! k) 0)"
    using assms(1) has_shape_affine by (rule pointwise_column[where f = "\<lambda>v. max v 0"])
  have 5: "column ?z3 j = affine 1 16 1 (w_output s) (column ?a2 j) (b_output s)"
    using assms(1) has_shape_tab by (rule affine_column)
  have 6: "column ?y j = tab 1 1 (\<lambda>i k. 1 / (1 + exp (- (column ?z3 j ! i ! k))))"
    using assms(1) has_shape_affine by (rule pointwise_column[where f = "\<lambda>v. 1 / (1 + exp (- v))"])
  show ?thesis
    by (simp only: spec_forward_def Let_def prod.case 6 5 4 3 2 1)
qed

lemma column_hstack:
  assumes "j < length cs" "has_shape n 1 (cs ! j)"
  shows "column (hstack n cs) j = cs ! j"
proof -
  have "column (hstack n cs) j = tab n 1 (\<lambda>i k. cs ! j ! i ! 0)"
    using assms(1) by (simp only: hstack_def column_tab)
  also have "\<dots> = tab n 1 (\<lambda>i k. cs ! j ! i ! k)"
    by (rule tab_cong) simp
  also have "\<dots> = cs ! j"
    using has_shape_eq_tab[OF assms(2)] by simp
  finally show ?thesis .
qed

lemma T_hstack:
  assumes "has_shape M 4 xs" "0 < M"
  shows "T xs = hstack 4 (map reshape_col xs)"
proof -
  have l: "length xs = M" using assms by (simp add: has_shape_def)
  have "T xs = tab 4 M (\<lambda>i j. xs ! j ! i)"
    using assms by (rule T_tab)
  also have "\<dots> = tab 4 M (\<lambda>k j. map reshape_col xs ! j ! k ! 0)"
  proof (rule tab_cong)
    fix i j :: nat assume "i < 4" "j < M"
    then show "xs ! j ! i = map reshape_col xs ! j ! i ! 0"
      using has_shape_row[OF assms(1), of j] by (simp add: l reshape_col_def)
  qed
  finally show ?thesis by (simp add: hstack_def l)
qed

lemma forward_batched_columns:
  assumes "params_ok s" "list_all (has_shape 4 1) cs"
  shows "\<exists>Z1 A1 Z2 A2 Z3 Y.
           forward_propagation (hstack 4 cs) s = Some ((Z1, A1, Z2, A2, Z3, Y), s) \<and>
           (\<forall>j<length cs. forward_propagation (cs ! j) s =
              Some ((column Z1 j, column A1 j, column Z2 j, column A2 j, column Z3 j, column Y j), s))"
proof -
  let ?X = "hstack 4 cs"
  have X: "has_shape 4 (length cs) ?X"
    by (simp add: hstack_def has_shape_tab)
  obtain Z1 A1 Z2 A2 Z3 Y where f: "spec_forward (length cs) s ?X = (Z1, A1, Z2, A2, Z3, Y)"
    by (metis prod_cases6)
  have b: "forward_propagation ?X s = Some ((Z1, A1, Z2, A2, Z3, Y), s)"
    using forward_propagation_spec[OF assms(1) X] f by simp
  have "forward_propagation (cs ! j) s =
      Some ((column Z1 j, column A1 j, column Z2 j, column A2 j, column Z3 j, column Y j), s)"
    if j: "j < length cs" for j
  proof -
    have c: "has_shape 4 1 (cs ! j)"
      using assms(2) j by (simp add: list_all_length)
    have "spec_forward 1 s (column ?X j) =
        (column Z1 j, column A1 j, column Z2 j, column A2 j, column Z3 j, column Y j)"
      using spec_forward_column[OF j X, of s] f by simp
    then show ?thesis
      using forward_propagation_spec[OF assms(1) c] column_hstack[OF j c] by simp
  qed
  with b show ?thesis by blast
qed

lemma reshape_cols_ok:
  assumes "has_shape M 4 xs"
  shows "list_all (has_shape 4 1) (map reshape_col xs)"
proof -
  have "has_shape 4 1 (reshape_col (xs ! j))" if "j < length xs" for j
  proof -
    have "length (xs ! j) = 4"
      using assms that by (simp add: has_shape_def list_all_length)
    then show ?thesis
      by (simp add: reshape_col_tab[of "xs ! j" 4] has_shape_tab)
  qed
  then show ?thesis by (simp add: list_all_length)
qed

section \<open>Rounding of the predictions\<close>

lemma np_round_nearest:
  "\<exists>n::int. np_round v = of_int n \<and> \<bar>of_int n - v\<bar> \<le> 1 / 2 \<and> (\<bar>of_int n - v\<bar> = 1 / 2 \<longrightarrow> even n)"
proof -
  define f where "f = \<lfloor>v\<rfloor>"
  define d where "d = v - of_int f"
  have d: "0 \<le> d" "d < 1" unfolding d_def f_def by linarith+
  have v: "v = of_int f + d" by (simp add: d_def)
  consider "d < 1 / 2" | "1 / 2 < d" | "d = 1 / 2" "even f" | "d = 1 / 2" "odd f"
    by fastforce
  then show ?thesis
  proof cases
    case 1
    then have "np_round v = of_int f" by (simp add: np_round_def Let_def f_def d_def)
    with 1 d show ?thesis by (intro exI[of _ f]) (simp add: v)
  next
    case 2
    then have "np_round v = of_int (f + 1)" by (simp add: np_round_def Let_def f_def d_def)
    with 2 d show ?thesis by (intro exI[of _ "f + 1"]) (simp add: v)
  next
    case 3
    have "np_round v = of_int f"
      unfolding np_round_def Let_def f_def[symmetric] d_def[symmetric] using 3 by simp
    with 3 d show ?thesis by (intro exI[of _ f]) (simp add: v)
  next
    case 4
    have "np_round v = of_int (f + 1)"
      unfolding np_round_def Let_def f_def[symmetric] d_def[symmetric] using 4 by simp
    with 4 d show ?thesis by (intro exI[of _ "f + 1"]) (simp add: v)
  qed
qed

lemma round_unit_interval:
  assumes "0 < v" "v < 1"
  shows "astype_int (np_round v) = (if 1 / 2 < v then 1 else 0)"
proof -
  have f: "\<lfloor>v\<rfloor> = 0" using assms by linarith
  show ?thesis
    by (simp add: np_round_def astype_int_def Let_def f)
qed

lemma predictions_spec:
  assumes "params_ok s" "has_shape 4 M X"
  shows "\<exists>z1 a1 z2 a2 z3 yh.
           forward_propagation X s = Some ((z1, a1, z2, a2, z3, yh), s) \<and>
           forward_propagation X s
               \<bind> (\<lambda>((z1, a1, z2, a2, z3, yh), s1). Some (ufunc astype_int (ufunc np_round yh)))
             = Some (tab 1 M (\<lambda>i j. if 1 / 2 < yh ! 0 ! j then 1 else 0))"
proof -
  obtain z1 a1 z2 a2 z3 where
    f: "spec_forward M s X = (z1, a1, z2, a2, z3, tab 1 M (\<lambda>i j. 1 / (1 + exp (- (z3 ! i ! j)))))"
    by (simp add: spec_forward_def Let_def)
  let ?yh = "tab 1 M (\<lambda>i j. 1 / (1 + exp (- (z3 ! i ! j))))"
  have r: "ufunc np_round ?yh = tab 1 M (\<lambda>i j. np_round (?yh ! i ! j))"
    using has_shape_tab by (rule ufunc_tab)
  have "ufunc astype_int (ufunc np_round ?yh) = tab 1 M (\<lambda>i j. astype_int (ufunc np_round ?yh ! i ! j))"
    unfolding r using has_shape_tab by (rule ufunc_tab)
  also have "\<dots> = tab 1 M (\<lambda>i j. if 1 / 2 < ?yh ! 0 ! j then 1 else 0)"
    unfolding r
  proof (rule tab_cong)
    fix i j :: nat assume ij: "i < 1" "j < M"
    have "0 < 1 / (1 + exp (- (z3 ! i ! j)))" "1 / (1 + exp (- (z3 ! i ! j))) < 1"
      using logistic_pos[of "z3 ! i ! j"] logistic_less_one[of "z3 ! i ! j"]
      by (simp_all add: logistic_def)
    then show "astype_int (tab 1 M (\<lambda>i j. np_round (?yh ! i ! j)) ! i ! j)
        = (if 1 / 2 < ?yh ! 0 ! j then 1 else 0)"
      using ij by (simp add: tab_nth round_unit_interval)
  qed
  finally have u: "ufunc astype_int (ufunc np_round ?yh)
      = tab 1 M (\<lambda>i j. if 1 / 2 < ?yh ! 0 ! j then 1 else 0)" .
  have fw: "forward_propagation X s = Some ((z1, a1, z2, a2, z3, ?yh), s)"
    using forward_propagation_spec[OF assms] by (simp add: f)
  show ?thesis
    by (intro exI conjI, rule fw) (simp only: fw u bind.bind_lunit prod.case)
qed

section \<open>What the backward pass reads\<close>

lemma backward_reads_only:
  assumes "w_output s = w_output s'" "w_second_hidden s = w_second_hidden s'"
  shows "map_option fst (backward_propagation z1 a1 z2 a2 z3 yh x y s)
       = map_option fst (backward_propagation z1 a1 z2 a2 z3 yh x y s')"
  using assms by (simp add: backward_propagation_def Let_def map_option_bind comp_def)

lemma backward_keeps_state:
  "backward_propagation z1 a1 z2 a2 z3 yh x y s = Some (g, t) \<Longrightarrow> t = s"
  by (auto simp: backward_propagation_def Let_def split: Option.bind_splits)

section \<open>Overflow of the exponential\<close>

lemma float_max_less: "float_max < 2 ^ 1024"
proof -
  have "float_max = 2 ^ 1024 - 2 ^ 971"
    by (simp add: float_max_def algebra_simps flip: power_add)
  then show ?thesis by simp
qed

lemma float_max_ge_one: "1 \<le> float_max"
proof -
  have "(1::real) \<le> 2 ^ 53 - 1" by simp
  moreover have "(1::real) \<le> 2 ^ 971" by (rule one_le_power) simp
  ultimately have "(1::real) * 1 \<le> (2 ^ 53 - 1) * 2 ^ 971" by (intro mult_mono) simp_all
  then show ?thesis by (simp add: float_max_def)
qed

lemma exp_nat_ge_power2: "2 ^ n \<le> exp (real n)"
proof -
  have "(2::real) \<le> exp 1" using exp_ge_add_one_self[of "1::real"] by simp
  then have "(2::real) ^ n \<le> exp 1 ^ n" by (intro power_mono) simp_all
  then show ?thesis using exp_of_nat_mult[of n "1::real"] by simp
qed

lemma overflows_large:
  assumes "1024 \<le> a"
  shows "overflows a"
proof -
  have "float_max < 2 ^ 1024" by (rule float_max_less)
  also have "\<dots> \<le> exp (real 1024)" by (rule exp_nat_ge_power2)
  also have "\<dots> \<le> exp a" using assms by simp
  finally show ?thesis by (simp add: overflows_def)
qed

lemma not_overflows_nonpos:
  assumes "a \<le> 0"
  shows "\<not> overflows a"
proof -
  have "exp a \<le> 1" using assms by simp
  then show ?thesis unfolding overflows_def using float_max_ge_one by linarith
qed

lemma logistic_stable: "logistic z = spec_stable_logistic z"
proof (cases "0 \<le> z")
  case True
  then show ?thesis by (simp add: logistic_def spec_stable_logistic_def)
next
  case False
  have "1 / (1 + exp (- z)) = exp z / (1 + exp z)"
    by (simp add: exp_minus field_simps add_pos_pos)
  with False show ?thesis by (simp add: logistic_def spec_stable_logistic_def)
qed

section \<open>Rounding to binary64\<close>

lemma np_round_of_int: "np_round (of_int n) = of_int n"
  by (simp add: np_round_def Let_def)

lemma np_round_mono:
  assumes "v \<le> w"
  shows "np_round v \<le> np_round w"
proof -
  define fv where "fv = \<lfloor>v\<rfloor>"
  define fw where "fw = \<lfloor>w\<rfloor>"
  have fvw: "fv \<le> fw" unfolding fv_def fw_def using assms by (rule floor_mono)
  have lo: "real_of_int fw \<le> np_round w"
    unfolding np_round_def Let_def fw_def[symmetric] by simp
  have hi: "np_round v \<le> real_of_int (fv + 1)"
    unfolding np_round_def Let_def fv_def[symmetric] by simp
  show ?thesis
  proof (cases "fv < fw")
    case True
    then have "real_of_int (fv + 1) \<le> real_of_int fw" by simp
    with lo hi show ?thesis by linarith
  next
    case False
    with fvw have e: "fw = fv" by simp
    have "v - real_of_int fv \<le> w - real_of_int fv" using assms by simp
    then show ?thesis
      unfolding np_round_def Let_def fv_def[symmetric] fw_def[symmetric] e
      by (auto split: if_splits)
  qed
qed

lemma round_grid_pos:
  "0 < x \<Longrightarrow> round_grid x = np_round (x / 2 powr (of_int (expo x) - 52)) * 2 powr (of_int (expo x) - 52)"
  by (simp add: round_grid_def Let_def)

lemma pow_split: "(2::real) powr (of_int k + 1) = 2 ^ 53 * 2 powr (of_int k - 52)"
proof -
  have "(2::real) powr (of_int k + 1) = 2 powr (53 + (of_int k - 52))"
    by (rule arg_cong[where f = "(powr) 2"]) simp
  also have "\<dots> = 2 powr 53 * 2 powr (of_int k - 52)" by (rule powr_add)
  finally show ?thesis by simp
qed

lemma pow_split': "(2::real) powr (of_int k) = 2 ^ 52 * 2 powr (of_int k - 52)"
proof -
  have "(2::real) powr (of_int k) = 2 powr (52 + (of_int k - 52))"
    by (rule arg_cong[where f = "(powr) 2"]) simp
  also have "\<dots> = 2 powr 52 * 2 powr (of_int k - 52)" by (rule powr_add)
  finally show ?thesis by simp
qed

lemma less_next_pow:
  assumes "0 < x"
  shows "x < 2 powr (of_int (expo x) + 1)"
proof -
  have "log 2 x < of_int \<lfloor>log 2 x\<rfloor> + 1" by linarith
  also have "\<dots> \<le> of_int (expo x) + 1" using assms by (simp add: expo_def)
  finally have "2 powr (log 2 x) < 2 powr (of_int (expo x) + 1)" by simp
  then show ?thesis using assms by simp
qed

lemma ge_pow:
  assumes "0 < x"
  shows "2 powr (of_int \<lfloor>log 2 x\<rfloor>) \<le> x"
proof -
  have "of_int \<lfloor>log 2 x\<rfloor> \<le> log 2 x" by simp
  then have "2 powr (of_int \<lfloor>log 2 x\<rfloor>) \<le> 2 powr (log 2 x)" by simp
  then show ?thesis using assms by simp
qed

lemma round_grid_upper:
  assumes "0 < x"
  shows "round_grid x \<le> 2 powr (of_int (expo x) + 1)"
proof -
  let ?u = "2 powr (of_int (expo x) - 52) :: real"
  have u: "0 < ?u" by simp
  have "x < 2 ^ 53 * ?u"
    using less_next_pow[OF assms] by (simp only: pow_split[of "expo x"])
  then have "x / ?u \<le> 2 ^ 53"
    using u by (simp add: pos_divide_le_eq)
  then have "x / ?u \<le> of_int (2 ^ 53)" by simp
  then have "np_round (x / ?u) \<le> np_round (of_int (2 ^ 53))" by (rule np_round_mono)
  then have "np_round (x / ?u) \<le> 2 ^ 53" by (simp only: np_round_of_int) simp
  then have "np_round (x / ?u) * ?u \<le> 2 ^ 53 * ?u" using u by (simp only: mult_le_cancel_right_pos)
  then show ?thesis by (simp only: round_grid_pos[OF assms] pow_split[of "expo x"])
qed

lemma round_grid_lower:
  assumes "0 < x" "- 1022 \<le> \<lfloor>log 2 x\<rfloor>"
  shows "2 powr (of_int \<lfloor>log 2 x\<rfloor>) \<le> round_grid x"
proof -
  have e: "expo x = \<lfloor>log 2 x\<rfloor>" using assms by (simp add: expo_def)
  let ?u = "2 powr (of_int (expo x) - 52) :: real"
  have u: "0 < ?u" by simp
  have "2 ^ 52 * ?u \<le> x"
    using ge_pow[OF assms(1)] by (simp only: e[symmetric] pow_split'[of "expo x"])
  then have "2 ^ 52 \<le> x / ?u"
    using u by (simp add: pos_le_divide_eq)
  then have "of_int (2 ^ 52) \<le> x / ?u" by simp
  then have "np_round (of_int (2 ^ 52)) \<le> np_round (x / ?u)" by (rule np_round_mono)
  then have "2 ^ 52 \<le> np_round (x / ?u)" by (simp only: np_round_of_int) simp
  then have "2 ^ 52 * ?u \<le> np_round (x / ?u) * ?u" using u by (simp only: mult_le_cancel_right_pos)
  then show ?thesis by (simp only: round_grid_pos[OF assms(1)] e[symmetric] pow_split'[of "expo x"])
qed

lemma round_grid_nonneg:
  assumes "0 \<le> x"
  shows "0 \<le> round_grid x"
proof (cases "x = 0")
  case True
  then show ?thesis by (simp add: round_grid_def)
next
  case False
  with assms have x: "0 < x" by simp
  let ?u = "2 powr (of_int (expo x) - 52) :: real"
  have "of_int 0 \<le> x / ?u" using x by simp
  then have "np_round (of_int 0) \<le> np_round (x / ?u)" by (rule np_round_mono)
  then have "0 \<le> np_round (x / ?u)" using np_round_of_int[of 0] by simp
  then show ?thesis by (simp add: round_grid_pos[OF x])
qed

lemma expo_mono:
  assumes "0 < x" "x \<le> y"
  shows "expo x \<le> expo y"
proof -
  have "log 2 x \<le> log 2 y" using assms by simp
  then have "\<lfloor>log 2 x\<rfloor> \<le> \<lfloor>log 2 y\<rfloor>" by (rule floor_mono)
  then show ?thesis using assms by (simp add: expo_def)
qed

lemma round_grid_mono:
  assumes "0 \<le> x" "x \<le> y"
  shows "round_grid x \<le> round_grid y"
proof (cases "x = 0")
  case True
  then show ?thesis using round_grid_nonneg[of y] assms by (simp add: round_grid_def)
next
  case False
  with assms have x: "0 < x" and y: "0 < y" by simp_all
  have k: "expo x \<le> expo y" using x assms(2) by (rule expo_mono)
  show ?thesis
  proof (cases "expo x = expo y")
    case True
    let ?u = "2 powr (of_int (expo y) - 52) :: real"
    have "x / ?u \<le> y / ?u" using assms(2) by (simp add: divide_right_mono)
    then have "np_round (x / ?u) \<le> np_round (y / ?u)" by (rule np_round_mono)
    then have "np_round (x / ?u) * ?u \<le> np_round (y / ?u) * ?u"
      by (simp add: mult_le_cancel_right_pos)
    then show ?thesis by (simp only: round_grid_pos[OF x] round_grid_pos[OF y] True)
  next
    case False
    with k have lt: "expo x < expo y" by simp
    have "- 1022 \<le> expo x" by (simp add: expo_def)
    with lt have ey: "expo y = \<lfloor>log 2 y\<rfloor>" "- 1022 \<le> \<lfloor>log 2 y\<rfloor>"
      using y by (auto simp: expo_def max_def split: if_splits)
    have "round_grid x \<le> 2 powr (of_int (expo x) + 1)" using x by (rule round_grid_upper)
    also have "\<dots> \<le> 2 powr (of_int (expo y))" using lt by simp
    also have "\<dots> \<le> round_grid y" using round_grid_lower[OF y ey(2)] by (simp add: ey(1))
    finally show ?thesis .
  qed
qed

lemma round_grid_pow2:
  assumes "- 1022 \<le> k"
  shows "round_grid (2 powr (of_int k)) = 2 powr (of_int k)"
proof -
  let ?x = "2 powr (of_int k) :: real"
  have x: "0 < ?x" by simp
  have "\<lfloor>log 2 ?x\<rfloor> = k" by simp
  then have e: "expo ?x = k" using assms by (simp add: expo_def)
  have "?x / 2 powr (of_int k - 52) = of_int (2 ^ 52)"
    by (simp add: pow_split'[of k])
  then have "np_round (?x / 2 powr (of_int k - 52)) = 2 ^ 52"
    by (simp only: np_round_of_int) simp
  then show ?thesis
    by (simp only: round_grid_pos[OF x] e pow_split'[of k, symmetric])
qed

lemma round_grid_one: "round_grid 1 = 1"
  using round_grid_pow2[of 0] by simp

lemma round_grid_two: "round_grid 2 = 2"
  using round_grid_pow2[of 1] by simp

lemma round_grid_half: "round_grid (1 / 2) = 1 / 2"
proof -
  have "(2::real) powr (of_int (- 1)) = 1 / 2" by (simp add: powr_minus_divide)
  then show ?thesis using round_grid_pow2[of "- 1"] by simp
qed

lemma round_grid_tiny: "round_grid (1 / 2 ^ 53) = 1 / 2 ^ 53"
proof -
  have p: "(2::real) powr (of_int (- 53)) = 1 / 2 ^ 53" by (simp add: powr_minus_divide)
  have "round_grid (2 powr (of_int (- 53))) = 2 powr (of_int (- 53))"
    by (rule round_grid_pow2) simp
  then show ?thesis by (simp only: p)
qed

lemma round_grid_huge: "round_grid (2 ^ 1024) = 2 ^ 1024"
proof -
  have "(2::real) powr (of_int 1024) = 2 ^ 1024" by simp
  then show ?thesis using round_grid_pow2[of 1024] by simp
qed

lemma round_grid_tie: "round_grid (1 + 1 / 2 ^ 53) = 1"
proof -
  let ?x = "1 + 1 / 2 ^ 53 :: real"
  have x: "0 < ?x" by simp
  have "\<lfloor>log 2 ?x\<rfloor> = 0"
    by (subst floor_log_eq_powr_iff) simp_all
  then have e: "expo ?x = 0" by (simp add: expo_def)
  have u: "(2::real) powr (of_int 0 - 52) = 1 / 2 ^ 52"
    by (simp add: powr_minus_divide)
  have q: "?x / (1 / 2 ^ 52) = 9007199254740993 / 2" by simp
  have r: "np_round (9007199254740993 / 2) = 4503599627370496"
    by (simp add: np_round_def Let_def)
  show ?thesis
    by (simp only: round_grid_pos[OF x] e u q r) simp
qed

lemma rnd_nonneg:
  assumes "0 \<le> x"
  shows "rnd x = (if 2 ^ 1024 \<le> round_grid x then PInf else Fin (round_grid x))"
proof -
  have "0 \<le> round_grid x" using assms by (rule round_grid_nonneg)
  moreover have "(0::real) < 2 ^ 1024" by simp
  ultimately have "\<not> round_grid x \<le> - (2 ^ 1024)" by linarith
  then show ?thesis by (simp add: rnd_def Let_def)
qed

lemma rnd_mono:
  assumes "0 \<le> x" "x \<le> y"
  shows "le64 (rnd x) (rnd y)"
proof -
  have y: "0 \<le> y" using assms by simp
  have "round_grid x \<le> round_grid y" using assms by (rule round_grid_mono)
  then show ?thesis by (simp add: rnd_nonneg[OF assms(1)] rnd_nonneg[OF y])
qed

lemma rnd_ge_one:
  assumes "1 \<le> x"
  shows "rnd x = PInf \<or> (\<exists>r. rnd x = Fin r \<and> 1 \<le> r)"
proof -
  have "round_grid 1 \<le> round_grid x" using assms by (intro round_grid_mono) simp_all
  then have "1 \<le> round_grid x" by (simp add: round_grid_one)
  moreover have "0 \<le> x" using assms by simp
  ultimately show ?thesis by (simp add: rnd_nonneg)
qed

lemma rnd_unit:
  assumes "0 \<le> x" "x \<le> 1"
  shows "\<exists>r. rnd x = Fin r \<and> 0 \<le> r \<and> r \<le> 1"
proof -
  have "round_grid x \<le> round_grid 1" using assms by (rule round_grid_mono)
  then have 1: "round_grid x \<le> 1" by (simp add: round_grid_one)
  have 0: "0 \<le> round_grid x" using assms(1) by (rule round_grid_nonneg)
  have "(1::real) < 2 ^ 1024" by simp
  with 1 have "\<not> 2 ^ 1024 \<le> round_grid x" by linarith
  then show ?thesis using 0 1 by (simp add: rnd_nonneg[OF assms(1)])
qed

lemma np_exp64_cases: "np_exp64 a = PInf \<or> (\<exists>g. np_exp64 a = Fin g \<and> 0 \<le> g)"
proof -
  have "0 \<le> exp a" by simp
  then show ?thesis
    using round_grid_nonneg[of "exp a"] by (simp add: np_exp64_def rnd_nonneg)
qed

lemma add_one_cases:
  assumes "v = PInf \<or> (\<exists>g. v = Fin g \<and> 0 \<le> g)"
  shows "add_one v = PInf \<or> (\<exists>h. add_one v = Fin h \<and> 1 \<le> h)"
proof -
  from assms consider "v = PInf" | g where "v = Fin g" "0 \<le> g" by blast
  then show ?thesis
  proof cases
    case 1
    then show ?thesis by (simp add: add_one_def)
  next
    case 2
    then have "1 \<le> 1 + g" by simp
    then have "rnd (1 + g) = PInf \<or> (\<exists>r. rnd (1 + g) = Fin r \<and> 1 \<le> r)" by (rule rnd_ge_one)
    with 2 show ?thesis by (simp add: add_one_def)
  qed
qed

lemma one_over_cases:
  assumes "w = PInf \<or> (\<exists>h. w = Fin h \<and> 1 \<le> h)"
  shows "\<exists>r. one_over w = Fin r \<and> 0 \<le> r \<and> r \<le> 1"
proof -
  from assms consider "w = PInf" | h where "w = Fin h" "1 \<le> h" by blast
  then show ?thesis
  proof cases
    case 1
    then show ?thesis by (simp add: one_over_def)
  next
    case 2
    then have "0 \<le> 1 / h" "1 / h \<le> 1" by simp_all
    then have "\<exists>r. rnd (1 / h) = Fin r \<and> 0 \<le> r \<and> r \<le> 1" by (rule rnd_unit)
    with 2 show ?thesis by (simp add: one_over_def)
  qed
qed

lemma logistic64_range: "\<exists>r. logistic64 x = Fin r \<and> 0 \<le> r \<and> r \<le> 1"
  unfolding logistic64_def
  by (intro one_over_cases add_one_cases np_exp64_cases)

lemma logistic64_zero: "logistic64 0 = Fin (1 / 2)"
proof -
  have 1: "rnd 1 = Fin 1" by (simp add: rnd_nonneg round_grid_one)
  have 2: "rnd 2 = Fin 2" by (simp add: rnd_nonneg round_grid_two)
  have 3: "rnd (1 / 2) = Fin (1 / 2)" by (simp add: rnd_nonneg round_grid_half)
  show ?thesis
    by (simp add: logistic64_def np_exp64_def add_one_def one_over_def 1 2 3)
qed

lemma np_exp64_mono:
  assumes "a \<le> b"
  shows "le64 (np_exp64 a) (np_exp64 b)"
  unfolding np_exp64_def using assms by (intro rnd_mono) simp_all

lemma add_one_mono:
  assumes "v = PInf \<or> (\<exists>g. v = Fin g \<and> 0 \<le> g)" "le64 v w"
  shows "le64 (add_one v) (add_one w)"
proof (cases w)
  case (Fin b)
  with assms obtain a where a: "v = Fin a" "0 \<le> a" "a \<le> b" by (cases v) auto
  then have "le64 (rnd (1 + a)) (rnd (1 + b))" by (intro rnd_mono) simp_all
  with a Fin show ?thesis by (simp add: add_one_def)
next
  case PInf
  then show ?thesis by (cases "add_one v") (simp_all add: add_one_def)
next
  case NInf
  with assms show ?thesis by (cases v) auto
qed

lemma one_over_antimono:
  assumes "v = PInf \<or> (\<exists>h. v = Fin h \<and> 1 \<le> h)" "w = PInf \<or> (\<exists>h. w = Fin h \<and> 1 \<le> h)"
    and "le64 v w"
  shows "le64 (one_over w) (one_over v)"
proof -
  obtain r where r: "one_over v = Fin r" "0 \<le> r"
    using one_over_cases[OF assms(1)] by blast
  from assms(2) consider "w = PInf" | b where "w = Fin b" "1 \<le> b" by blast
  then show ?thesis
  proof cases
    case 1
    with r show ?thesis by (simp add: one_over_def)
  next
    case 2
    with assms(1,3) obtain a where a: "v = Fin a" "1 \<le> a" "a \<le> b" by (cases v) auto
    then have "0 \<le> 1 / b" "1 / b \<le> 1 / a" using 2 by (simp_all add: frac_le)
    then have "le64 (rnd (1 / b)) (rnd (1 / a))" by (rule rnd_mono)
    with a 2 show ?thesis by (simp add: one_over_def)
  qed
qed

lemma logistic64_mono:
  assumes "x \<le> x'"
  shows "le64 (logistic64 x) (logistic64 x')"
proof -
  have "le64 (np_exp64 (- x')) (np_exp64 (- x))"
    using assms by (intro np_exp64_mono) simp
  then have "le64 (add_one (np_exp64 (- x'))) (add_one (np_exp64 (- x)))"
    by (intro add_one_mono np_exp64_cases)
  then show ?thesis
    unfolding logistic64_def
    by (intro one_over_antimono add_one_cases np_exp64_cases)
qed

lemma exp_three_ge: "16 \<le> exp (3::real)"
proof -
  have "(17 / 16 :: real) \<le> exp (1 / 16)"
    using exp_ge_add_one_self[of "1 / 16 :: real"] by simp
  then have "(17 / 16 :: real) ^ 48 \<le> exp (1 / 16) ^ 48"
    by (intro power_mono) simp_all
  moreover have "exp (1 / 16 :: real) ^ 48 = exp 3"
    using exp_of_nat_mult[of 48 "1 / 16 :: real"] by simp
  moreover have "(16::real) \<le> (17 / 16) ^ 48"
    by (simp add: power_divide)
  ultimately show ?thesis by linarith
qed

lemma exp_three_times: "(16::real) ^ n \<le> exp (3 * real n)"
proof -
  have "(16::real) ^ n \<le> exp 3 ^ n"
    using exp_three_ge by (intro power_mono) simp_all
  then show ?thesis
    using exp_of_nat_mult[of n "3::real"] by (simp add: mult.commute)
qed

lemma exp_forty_ge: "2 ^ 53 \<le> exp (40::real)"
proof -
  have "(16::real) ^ 13 \<le> exp (3 * real 13)" by (rule exp_three_times)
  then have a: "(2::real) ^ 52 \<le> exp 39" by simp
  have b: "(2::real) \<le> exp 1" using exp_ge_add_one_self[of "1::real"] by simp
  have "(2::real) ^ 52 * 2 \<le> exp 39 * exp 1"
    using a b by (intro mult_mono) simp_all
  moreover have "exp (39::real) * exp 1 = exp 40"
    by (simp add: exp_add[symmetric])
  ultimately show ?thesis by simp
qed

lemma exp_eight_hundred_ge: "2 ^ 1024 \<le> exp (800::real)"
proof -
  have "(16::real) ^ 266 \<le> exp (3 * real 266)" by (rule exp_three_times)
  then have "(16::real) ^ 266 \<le> exp 798" by simp
  moreover have "exp (798::real) \<le> exp 800" by simp
  moreover have "(2::real) ^ 1024 \<le> 16 ^ 266" by simp
  ultimately show ?thesis by linarith
qed

lemma logistic64_saturates_one:
  assumes "2 ^ 53 \<le> exp x"
  shows "logistic64 x = Fin 1"
proof -
  have e: "0 \<le> exp (- x)" "exp (- x) \<le> 1 / 2 ^ 53"
    using assms by (simp_all add: exp_minus inverse_eq_divide frac_le)
  define g where "g = round_grid (exp (- x))"
  have g0: "0 \<le> g" unfolding g_def using e(1) by (rule round_grid_nonneg)
  have "g \<le> round_grid (1 / 2 ^ 53)" unfolding g_def using e by (rule round_grid_mono)
  then have g1: "g \<le> 1 / 2 ^ 53" by (simp only: round_grid_tiny)
  have "(1 / 2 ^ 53 :: real) < 2 ^ 1024" by simp
  with g1 have "\<not> 2 ^ 1024 \<le> g" by linarith
  then have 1: "np_exp64 (- x) = Fin g"
    by (simp add: np_exp64_def rnd_nonneg g_def)
  have "round_grid 1 \<le> round_grid (1 + g)" using g0 by (intro round_grid_mono) simp_all
  moreover have "round_grid (1 + g) \<le> round_grid (1 + 1 / 2 ^ 53)"
    using g0 g1 by (intro round_grid_mono) simp_all
  ultimately have "1 \<le> round_grid (1 + g)" "round_grid (1 + g) \<le> 1"
    by (simp_all only: round_grid_one round_grid_tie)
  then have "round_grid (1 + g) = 1" by linarith
  then have 2: "rnd (1 + g) = Fin 1" using g0 by (simp add: rnd_nonneg)
  have 3: "rnd 1 = Fin 1" by (simp add: rnd_nonneg round_grid_one)
  show ?thesis
    by (simp add: logistic64_def 1 add_one_def 2 one_over_def 3)
qed

lemma logistic64_saturates_zero:
  assumes "2 ^ 1024 \<le> exp (- x)"
  shows "logistic64 x = Fin 0"
proof -
  have "round_grid (2 ^ 1024) \<le> round_grid (exp (- x))"
    using assms by (intro round_grid_mono) simp_all
  then have "2 ^ 1024 \<le> round_grid (exp (- x))" by (simp only: round_grid_huge)
  then have "np_exp64 (- x) = PInf" by (simp add: np_exp64_def rnd_nonneg)
  then show ?thesis by (simp add: logistic64_def add_one_def one_over_def)
qed

section \<open>The claims\<close>



text \<open>
  C2: for every input of shape \<open>(4, 1)\<close> and every parameter setting of the shapes of
  the network, \<open>forward_propagation\<close> returns the six values \<open>z1 = W1\<cdot>x + b1\<close>,
  \<open>a1 = relu z1\<close>, \<open>z2 = W2\<cdot>a1 + b2\<close>, \<open>a2 = relu z2\<close>, \<open>z3 = W3\<cdot>a2 + b3\<close>,
  \<open>\<^bold>y = logistic z3\<close> (\<open>spec_forward\<close>), and the parameters are as they were.
\<close>

theorem forward_propagation_formulas:
  assumes "params_ok s" "has_shape 4 1 x"
  shows "forward_propagation x s = Some (spec_forward 1 s x, s)"
  using assms by (rule forward_propagation_spec)

text \<open>C2 at \<open>example_input\<close> and \<open>example_params\<close>: the output is \<open>1/2\<close>.\<close>

theorem forward_propagation_formulas_witness:
  "params_ok example_params \<and> has_shape 4 1 example_input \<and>
   forward_propagation example_input example_params =
     Some ((tab 16 1 (\<lambda>i j. 4), tab 16 1 (\<lambda>i j. 4), tab 16 1 (\<lambda>i j. 4), tab 16 1 (\<lambda>i j. 4),
            tab 1 1 (\<lambda>i j. 0), tab 1 1 (\<lambda>i j. 1 / 2)), example_params)"
  using forward_propagation_formulas[OF params_ok_example has_shape_example_input]
  by (simp only: spec_forward_example params_ok_example has_shape_example_input simp_thms)



text \<open>
  C4 as stated fails: under \<open>example_params\<close> the sample \<open>(1, 1, 1, 1)\<close> has the
  prediction \<open>1/2\<close>, and it is classified as 0.
\<close>

theorem prediction_half_rounds_to_zero:
  "map_option (\<lambda>((z1, a1, z2, a2, z3, yh), s). yh)
       (forward_propagation (T [[1, 1, 1, 1]]) example_params) = Some [[1 / 2]]
   \<and> predictions [[1, 1, 1, 1]] example_params = Some [[0]]"
proof -
  have f: "forward_propagation (T [[1, 1, 1, 1]]) example_params
     = Some ((tab 16 1 (\<lambda>i j. 4), tab 16 1 (\<lambda>i j. 4), tab 16 1 (\<lambda>i j. 4), tab 16 1 (\<lambda>i j. 4),
            tab 1 1 (\<lambda>i j. 0), tab 1 1 (\<lambda>i j. 1 / 2)), example_params)"
    using forward_propagation_spec[OF params_ok_example has_shape_example_input]
    by (simp only: spec_forward_example T_row_of_ones)
  have t: "tab 1 1 (\<lambda>i j. 1 / 2 :: real) = [[1 / 2]]"
    by (simp add: tab_def)
  have p: "predictions [[1, 1, 1, 1]] example_params
      = Some (ufunc astype_int (ufunc np_round (tab 1 1 (\<lambda>i j. 1 / 2))))"
    by (simp only: predictions_def f bind.bind_lunit prod.case)
  have "ufunc astype_int (ufunc np_round [[1 / 2]]) = [[0]]"
    by (simp add: ufunc_def np_round_def astype_int_def Let_def)
  then show ?thesis
    unfolding p f t by simp
qed

text \<open>
  C4, amended: a test prediction is rounded to the nearest integer and, half way
  between two integers, to the even one: a prediction above \<open>1/2\<close> is classified as 1,
  a prediction of \<open>1/2\<close> or less as 0.
\<close>

theorem predictions_round_half_even:
  assumes "params_ok s" "has_shape M 4 xs" "0 < M"
  shows "(\<exists>z1 a1 z2 a2 z3 yh.
            forward_propagation (T xs) s = Some ((z1, a1, z2, a2, z3, yh), s) \<and>
            predictions xs s = Some (tab 1 M (\<lambda>i j. if 1 / 2 < yh ! 0 ! j then 1 else 0)))
         \<and> (\<forall>v. \<exists>n::int. np_round v = of_int n \<and> \<bar>of_int n - v\<bar> \<le> 1 / 2 \<and>
                  (\<bar>of_int n - v\<bar> = 1 / 2 \<longrightarrow> even n))
         \<and> astype_int (np_round (1 / 2)) = 0"
proof -
  have X: "has_shape 4 M (T xs)"
    using T_tab[OF assms(2,3)] by (simp add: has_shape_tab)
  have "\<exists>z1 a1 z2 a2 z3 yh.
            forward_propagation (T xs) s = Some ((z1, a1, z2, a2, z3, yh), s) \<and>
            predictions xs s = Some (tab 1 M (\<lambda>i j. if 1 / 2 < yh ! 0 ! j then 1 else 0))"
    using predictions_spec[OF assms(1) X] by (simp add: predictions_def)
  moreover have "astype_int (np_round (1 / 2)) = 0"
    by (simp add: np_round_def astype_int_def Let_def)
  ultimately show ?thesis
    using np_round_nearest by blast
qed

text \<open>C4, amended, on two test samples.\<close>

theorem predictions_round_half_even_witness:
  "params_ok example_params \<and> has_shape 2 4 example_predictors \<and> (0::nat) < 2 \<and>
   (\<exists>z1 a1 z2 a2 z3 yh.
      forward_propagation (T example_predictors) example_params
        = Some ((z1, a1, z2, a2, z3, yh), example_params) \<and>
      predictions example_predictors example_params
        = Some (tab 1 2 (\<lambda>i j. if 1 / 2 < yh ! 0 ! j then 1 else 0)))
   \<and> (\<exists>n::int. np_round (3 / 2) = of_int n \<and> \<bar>of_int n - 3 / 2 :: real\<bar> = 1 / 2 \<and> even n)
   \<and> astype_int (np_round (1 / 2)) = 0"
proof -
  have m: "(0::nat) < 2" by simp
  note t = predictions_round_half_even[OF params_ok_example has_shape_example_data(1) m]
  from t obtain n :: int where n: "np_round (3 / 2) = of_int n"
      "\<bar>of_int n - 3 / 2 :: real\<bar> = 1 / 2 \<longrightarrow> even n"
    by blast
  have "np_round (3 / 2) = 2"
    by (simp add: np_round_def Let_def)
  with n(1) have "n = 2" by simp
  with n have "\<exists>n::int. np_round (3 / 2) = of_int n \<and> \<bar>of_int n - 3 / 2 :: real\<bar> = 1 / 2 \<and> even n"
    by (intro exI[of _ 2]) simp
  with t show ?thesis
    using params_ok_example has_shape_example_data(1) m by blast
qed

text \<open>
  C5 as stated fails: with equal arguments, the gradients under \<open>example_params\<close> and
  under \<open>example_params\<close> with \<open>w_output\<close> set to zero differ.
\<close>

theorem backward_propagation_depends_on_w_output:
  "map_option fst
     (backward_propagation (tab 16 1 (\<lambda>i j. 4)) (tab 16 1 (\<lambda>i j. 4)) (tab 16 1 (\<lambda>i j. 4))
        (tab 16 1 (\<lambda>i j. 4)) (tab 1 1 (\<lambda>i j. 0)) (tab 1 1 (\<lambda>i j. 1 / 2)) example_input [[1]]
        example_params)
   \<noteq> map_option fst
     (backward_propagation (tab 16 1 (\<lambda>i j. 4)) (tab 16 1 (\<lambda>i j. 4)) (tab 16 1 (\<lambda>i j. 4))
        (tab 16 1 (\<lambda>i j. 4)) (tab 1 1 (\<lambda>i j. 0)) (tab 1 1 (\<lambda>i j. 1 / 2)) example_input [[1]]
        (example_params\<lparr>w_output := tab 1 16 (\<lambda>i j. 0)\<rparr>))"
proof -
  have w: "has_shape 1 16 (w_output example_params)"
      "has_shape 16 16 (w_second_hidden example_params)"
    using params_ok_example by (simp_all add: params_ok_def)
  have w': "has_shape 1 16 (w_output (example_params\<lparr>w_output := tab 1 16 (\<lambda>i j. 0)\<rparr>))"
      "has_shape 16 16 (w_second_hidden (example_params\<lparr>w_output := tab 1 16 (\<lambda>i j. 0)\<rparr>))"
    using w(2) by (simp_all add: has_shape_tab)
  have c: "has_shape 16 1 (tab 16 1 (\<lambda>i j. 4 :: real))" "has_shape 1 1 (tab 1 1 (\<lambda>i j. 0 :: real))"
      "has_shape 1 1 (tab 1 1 (\<lambda>i j. 1 / 2 :: real))"
    by (rule has_shape_tab)+
  note b1 = backward_propagation_spec[OF w c(1) c(1) c(1) c(1) c(2) c(3) has_shape_example_input,
      of 1, unfolded spec_backward_example]
  note b2 = backward_propagation_spec[OF w' c(1) c(1) c(1) c(1) c(2) c(3) has_shape_example_input,
      of 1, unfolded spec_backward_example_zero_output]
  have "tab 16 1 (\<lambda>i j. - (1 / 4) :: real) ! 0 ! 0 \<noteq> tab 16 1 (\<lambda>i j. 0 :: real) ! 0 ! 0"
    by (simp add: tab_nth)
  then have "tab 16 1 (\<lambda>i j. - (1 / 4) :: real) \<noteq> tab 16 1 (\<lambda>i j. 0)"
    by metis
  then show ?thesis
    unfolding b1 b2 by simp
qed

text \<open>
  C5, amended: the gradients that \<open>backward_propagation\<close> returns are a function of
  its eight arguments and of the current \<open>w_output\<close> and \<open>w_second_hidden\<close>: two calls
  with equal arguments in states that agree on these two arrays return equal gradients,
  whatever the other four parameters are; and the call leaves the state as it was.
\<close>

theorem backward_propagation_reads_weights:
  "(w_output s = w_output s' \<longrightarrow> w_second_hidden s = w_second_hidden s' \<longrightarrow>
      map_option fst (backward_propagation z1 a1 z2 a2 z3 yh x y s)
    = map_option fst (backward_propagation z1 a1 z2 a2 z3 yh x y s'))
   \<and> (\<forall>g t. backward_propagation z1 a1 z2 a2 z3 yh x y s = Some (g, t) \<longrightarrow> t = s)"
proof (intro conjI impI allI)
  assume "w_output s = w_output s'" "w_second_hidden s = w_second_hidden s'"
  then show "map_option fst (backward_propagation z1 a1 z2 a2 z3 yh x y s)
    = map_option fst (backward_propagation z1 a1 z2 a2 z3 yh x y s')"
    by (rule backward_reads_only)
next
  fix g t assume "backward_propagation z1 a1 z2 a2 z3 yh x y s = Some (g, t)"
  then show "t = s" by (rule backward_keeps_state)
qed

text \<open>C5, amended, for two states that differ in \<open>b_output\<close> only.\<close>

theorem backward_propagation_reads_weights_witness:
  "w_output (example_params\<lparr>b_output := tab 1 1 (\<lambda>i j. 0)\<rparr>) = w_output example_params \<and>
   w_second_hidden (example_params\<lparr>b_output := tab 1 1 (\<lambda>i j. 0)\<rparr>) = w_second_hidden example_params \<and>
   map_option fst
     (backward_propagation (tab 16 1 (\<lambda>i j. 4)) (tab 16 1 (\<lambda>i j. 4)) (tab 16 1 (\<lambda>i j. 4))
        (tab 16 1 (\<lambda>i j. 4)) (tab 1 1 (\<lambda>i j. 0)) (tab 1 1 (\<lambda>i j. 1 / 2)) example_input [[1]]
        (example_params\<lparr>b_output := tab 1 1 (\<lambda>i j. 0)\<rparr>))
   = map_option fst
     (backward_propagation (tab 16 1 (\<lambda>i j. 4)) (tab 16 1 (\<lambda>i j. 4)) (tab 16 1 (\<lambda>i j. 4))
        (tab 16 1 (\<lambda>i j. 4)) (tab 1 1 (\<lambda>i j. 0)) (tab 1 1 (\<lambda>i j. 1 / 2)) example_input [[1]]
        example_params) \<and>
   (\<exists>g. backward_propagation (tab 16 1 (\<lambda>i j. 4)) (tab 16 1 (\<lambda>i j. 4)) (tab 16 1 (\<lambda>i j. 4))
        (tab 16 1 (\<lambda>i j. 4)) (tab 1 1 (\<lambda>i j. 0)) (tab 1 1 (\<lambda>i j. 1 / 2)) example_input [[1]]
        (example_params\<lparr>b_output := tab 1 1 (\<lambda>i j. 0)\<rparr>)
      = Some (g, example_params\<lparr>b_output := tab 1 1 (\<lambda>i j. 0)\<rparr>))"
proof -
  let ?s = "example_params\<lparr>b_output := tab 1 1 (\<lambda>i j. 0)\<rparr>"
  have h: "w_output ?s = w_output example_params"
    "w_second_hidden ?s = w_second_hidden example_params"
    by simp_all
  note t = backward_propagation_reads_weights[of ?s
      example_params "tab 16 1 (\<lambda>i j. 4)" "tab 16 1 (\<lambda>i j. 4)" "tab 16 1 (\<lambda>i j. 4)"
      "tab 16 1 (\<lambda>i j. 4)" "tab 1 1 (\<lambda>i j. 0)" "tab 1 1 (\<lambda>i j. 1 / 2)" example_input "[[1]]"]
  have w: "has_shape 1 16 (w_output ?s)" "has_shape 16 16 (w_second_hidden ?s)"
    using params_ok_example by (simp_all add: params_ok_def)
  have c: "has_shape 16 1 (tab 16 1 (\<lambda>i j. 4 :: real))" "has_shape 1 1 (tab 1 1 (\<lambda>i j. 0 :: real))"
      "has_shape 1 1 (tab 1 1 (\<lambda>i j. 1 / 2 :: real))"
    by (rule has_shape_tab)+
  obtain g t where
    b: "backward_propagation (tab 16 1 (\<lambda>i j. 4)) (tab 16 1 (\<lambda>i j. 4)) (tab 16 1 (\<lambda>i j. 4))
        (tab 16 1 (\<lambda>i j. 4)) (tab 1 1 (\<lambda>i j. 0)) (tab 1 1 (\<lambda>i j. 1 / 2)) example_input [[1]] ?s
      = Some (g, t)"
    using backward_propagation_spec[OF w c(1) c(1) c(1) c(1) c(2) c(3) has_shape_example_input, of 1]
    by blast
  with t have "t = ?s" by blast
  with b t h show ?thesis by blast
qed

text \<open>
  C6: after initialisation the six parameters have the shapes \<open>(16,4)\<close>, \<open>(16,1)\<close>,
  \<open>(16,16)\<close>, \<open>(16,1)\<close>, \<open>(1,16)\<close>, \<open>(1,1)\<close>; a training step and the whole
  training keep them; and for an input of shape \<open>(4,1)\<close> the forward pass returns arrays
  of the shapes \<open>(16,1)\<close>, \<open>(16,1)\<close>, \<open>(16,1)\<close>, \<open>(16,1)\<close>, \<open>(1,1)\<close>, \<open>(1,1)\<close>.
\<close>

theorem shapes_invariant:
  "params_ok (init_params g) \<and>
   (params_ok s \<longrightarrow> has_shape N 4 xs \<longrightarrow> has_shape N 1 ys \<longrightarrow> i < N \<longrightarrow>
      (\<exists>s'. train_step xs ys i s = Some s' \<and> params_ok s')) \<and>
   (params_ok s \<longrightarrow> has_shape N 4 xs \<longrightarrow> has_shape N 1 ys \<longrightarrow>
      (\<exists>s'. training xs ys s = Some s' \<and> params_ok s')) \<and>
   (params_ok s \<longrightarrow> has_shape 4 1 x \<longrightarrow>
      (\<exists>z1 a1 z2 a2 z3 yh.
         forward_propagation x s = Some ((z1, a1, z2, a2, z3, yh), s) \<and>
         has_shape 16 1 z1 \<and> has_shape 16 1 a1 \<and> has_shape 16 1 z2 \<and> has_shape 16 1 a2 \<and>
         has_shape 1 1 z3 \<and> has_shape 1 1 yh))"
proof (intro conjI impI)
  show "params_ok (init_params g)" by (rule params_ok_init_params)
next
  assume "params_ok s" "has_shape N 4 xs" "has_shape N 1 ys" "i < N"
  then show "\<exists>s'. train_step xs ys i s = Some s' \<and> params_ok s'"
    by (simp add: train_step_spec params_ok_spec_step)
next
  assume "params_ok s" "has_shape N 4 xs" "has_shape N 1 ys"
  then show "\<exists>s'. training xs ys s = Some s' \<and> params_ok s'"
    by (simp add: training_spec)
next
  assume a: "params_ok s" "has_shape 4 1 x"
  obtain z1 a1 z2 a2 z3 yh where f: "spec_forward 1 s x = (z1, a1, z2, a2, z3, yh)"
    by (metis prod_cases6)
  show "\<exists>z1 a1 z2 a2 z3 yh.
         forward_propagation x s = Some ((z1, a1, z2, a2, z3, yh), s) \<and>
         has_shape 16 1 z1 \<and> has_shape 16 1 a1 \<and> has_shape 16 1 z2 \<and> has_shape 16 1 a2 \<and>
         has_shape 1 1 z3 \<and> has_shape 1 1 yh"
    using forward_propagation_spec[OF a] spec_forward_shapes[OF f] f by simp
qed

text \<open>C6 at concrete parameters and data.\<close>

theorem shapes_invariant_witness:
  "params_ok (init_params (\<lambda>k. 1 / 2)) \<and>
   params_ok example_params \<and> has_shape 2 4 example_predictors \<and>
   has_shape 2 1 example_response \<and> (1::nat) < 2 \<and> has_shape 4 1 example_input \<and>
   (\<exists>s'. train_step example_predictors example_response 1 example_params = Some s' \<and> params_ok s') \<and>
   (\<exists>s'. training example_predictors example_response example_params = Some s' \<and> params_ok s') \<and>
   (\<exists>z1 a1 z2 a2 z3 yh.
         forward_propagation example_input example_params = Some ((z1, a1, z2, a2, z3, yh), example_params) \<and>
         has_shape 16 1 z1 \<and> has_shape 16 1 a1 \<and> has_shape 16 1 z2 \<and> has_shape 16 1 a2 \<and>
         has_shape 1 1 z3 \<and> has_shape 1 1 yh)"
proof -
  note t = shapes_invariant[of "\<lambda>k. 1 / 2" example_params 2 example_predictors
      example_response 1 example_input]
  have h: "params_ok example_params" "has_shape 2 4 example_predictors"
      "has_shape 2 1 example_response" "(1::nat) < 2" "has_shape 4 1 example_input"
    using params_ok_example has_shape_example_data has_shape_example_input by simp_all
  show ?thesis
    using t h by blast
qed

text \<open>
  C7 as stated fails: at \<open>z = -2000\<close> the exponential is taken of the positive
  argument 2000, and \<open>e\<^sup>2\<^sup>0\<^sup>0\<^sup>0\<close> is beyond binary64.
\<close>

theorem logistic_exp_of_positive_argument:
  "snd (logistic_calls (- 2000)) = [2000] \<and> snd (d_logistic_calls (- 2000)) = [2000, 2000] \<and>
   (0::real) < 2000 \<and> overflows 2000"
  using overflows_large[of 2000]
  by (simp add: logistic_calls_def d_logistic_calls_def np_exp_def)

text \<open>
  C7, amended: \<open>logistic\<close> and \<open>d_logistic\<close> are computed in the form
  \<open>1/(1 + e\<^sup>-\<^sup>z)\<close>, with no branch on the sign: the exponential is always taken of
  \<open>-z\<close>. For \<open>z \<ge> 0\<close> this argument is not positive and the exponential cannot
  overflow; for \<open>z \<le> -1024\<close> it overflows binary64. In exact arithmetic the value is
  that of the stable form.
\<close>

theorem logistic_naive_form:
  "fst (logistic_calls z) = logistic z \<and> snd (logistic_calls z) = [- z] \<and>
   fst (d_logistic_calls z) = d_logistic z \<and> snd (d_logistic_calls z) = [- z, - z] \<and>
   logistic z = spec_stable_logistic z \<and>
   (0 \<le> z \<longrightarrow> \<not> overflows (- z)) \<and> (z \<le> - 1024 \<longrightarrow> overflows (- z))"
  by (simp add: logistic_calls_def d_logistic_calls_def np_exp_def logistic_def d_logistic_def
      logistic_stable[unfolded logistic_def] not_overflows_nonpos overflows_large)

text \<open>C7, amended, at \<open>z = 3\<close> and \<open>z = -2000\<close>.\<close>

theorem logistic_naive_form_witness:
  "snd (logistic_calls 3) = [- 3] \<and> snd (d_logistic_calls 3) = [- 3, - 3] \<and>
   (0::real) \<le> 3 \<and> \<not> overflows (- 3) \<and> (- 2000 :: real) \<le> - 1024 \<and> overflows (- (- 2000))"
  using logistic_naive_form[of 3] logistic_naive_form[of "- 2000"] by simp

text \<open>
  C8 as stated fails for the value the code computes: in binary64 \<open>logistic 40\<close> and
  \<open>logistic 41\<close> are both exactly 1, and \<open>logistic (-800)\<close> is exactly 0.
\<close>

theorem logistic64_reaches_one_and_zero:
  "logistic64 40 = Fin 1 \<and> logistic64 41 = Fin 1 \<and> logistic64 (- 800) = Fin 0"
proof -
  have "(2::real) ^ 53 \<le> exp 41"
    using exp_forty_ge by (rule order_trans) simp
  then show ?thesis
    using exp_forty_ge exp_eight_hundred_ge
    by (simp add: logistic64_saturates_one logistic64_saturates_zero)
qed

text \<open>
  C8, amended: in binary64 \<open>logistic x\<close> lies in the closed interval from 0 to 1 for
  every \<open>x\<close>, \<open>logistic 0 = 1/2\<close>, and \<open>logistic\<close> is non-decreasing: \<open>x \<le> x'\<close>
  implies \<open>logistic x \<le> logistic x'\<close>.
\<close>

theorem logistic64_range_half_mono:
  "(\<exists>r. logistic64 x = Fin r \<and> 0 \<le> r \<and> r \<le> 1) \<and> logistic64 0 = Fin (1 / 2) \<and>
   (x \<le> x' \<longrightarrow> le64 (logistic64 x) (logistic64 x'))"
  using logistic64_range logistic64_zero logistic64_mono by blast

text \<open>C8, amended, at 40 and 41.\<close>

theorem logistic64_range_half_mono_witness:
  "(40::real) \<le> 41 \<and> le64 (logistic64 40) (logistic64 41) \<and>
   (\<exists>r. logistic64 40 = Fin r \<and> 0 \<le> r \<and> r \<le> 1) \<and> logistic64 0 = Fin (1 / 2)"
  using logistic64_range_half_mono[of 40 41] by simp

text \<open>
  C9: for every list \<open>cs\<close> of inputs of shape \<open>(4,1)\<close>, the forward pass on the array
  whose columns are \<open>cs\<close> returns six arrays whose columns \<open>j\<close> are the six arrays of
  the forward pass on \<open>cs ! j\<close>; and the transpose of a test set of \<open>M > 0\<close> rows is
  the array whose columns are its rows, reshaped as in training.
\<close>

theorem forward_propagation_batched:
  assumes "params_ok s" "list_all (has_shape 4 1) cs"
  shows "(\<exists>Z1 A1 Z2 A2 Z3 Y.
           forward_propagation (hstack 4 cs) s = Some ((Z1, A1, Z2, A2, Z3, Y), s) \<and>
           (\<forall>j<length cs. forward_propagation (cs ! j) s =
              Some ((column Z1 j, column A1 j, column Z2 j, column A2 j, column Z3 j, column Y j), s)))
         \<and> (has_shape M 4 xs \<longrightarrow> 0 < M \<longrightarrow>
              T xs = hstack 4 (map reshape_col xs) \<and>
              list_all (has_shape 4 1) (map reshape_col xs))"
  using forward_batched_columns[OF assms] T_hstack[of M xs] reshape_cols_ok[of M xs] by blast

text \<open>C9 for two inputs.\<close>

theorem forward_propagation_batched_witness:
  "params_ok example_params \<and> list_all (has_shape 4 1) [example_input, tab 4 1 (\<lambda>i j. 0)] \<and>
   has_shape 2 4 example_predictors \<and> (0::nat) < 2 \<and>
   (\<exists>Z1 A1 Z2 A2 Z3 Y.
      forward_propagation (hstack 4 [example_input, tab 4 1 (\<lambda>i j. 0)]) example_params
        = Some ((Z1, A1, Z2, A2, Z3, Y), example_params) \<and>
      forward_propagation example_input example_params
        = Some ((column Z1 0, column A1 0, column Z2 0, column A2 0, column Z3 0, column Y 0),
                example_params) \<and>
      forward_propagation (tab 4 1 (\<lambda>i j. 0)) example_params
        = Some ((column Z1 1, column A1 1, column Z2 1, column A2 1, column Z3 1, column Y 1),
                example_params)) \<and>
   T example_predictors = hstack 4 (map reshape_col example_predictors)"
proof -
  have l: "list_all (has_shape 4 1) [example_input, tab 4 1 (\<lambda>i j. 0)]"
    using has_shape_example_input has_shape_tab[of 4 1] by simp
  have m: "(0::nat) < 2" by simp
  note t = forward_propagation_batched[OF params_ok_example l, of 2 example_predictors]
  from t obtain Z1 A1 Z2 A2 Z3 Y where
    b: "forward_propagation (hstack 4 [example_input, tab 4 1 (\<lambda>i j. 0)]) example_params
        = Some ((Z1, A1, Z2, A2, Z3, Y), example_params)"
    and c: "\<forall>j<length [example_input, tab 4 1 (\<lambda>i j. 0 :: real)].
        forward_propagation ([example_input, tab 4 1 (\<lambda>i j. 0)] ! j) example_params =
              Some ((column Z1 j, column A1 j, column Z2 j, column A2 j, column Z3 j, column Y j),
                    example_params)"
    by blast
  have c0: "forward_propagation example_input example_params
        = Some ((column Z1 0, column A1 0, column Z2 0, column A2 0, column Z3 0, column Y 0),
                example_params)"
    using c[rule_format, of 0] by simp
  have c1: "forward_propagation (tab 4 1 (\<lambda>i j. 0)) example_params
        = Some ((column Z1 1, column A1 1, column Z2 1, column A2 1, column Z3 1, column Y 1),
                example_params)"
    using c[rule_format, of 1] by simp
  have e: "T example_predictors = hstack 4 (map reshape_col example_predictors)"
    using t has_shape_example_data(1) m by blast
  show ?thesis
    using params_ok_example l has_shape_example_data(1) m b c0 c1 e by blast
qed

end
